theory Spec2Isabelle
  imports Main
begin

section \<open>Scope of the model\<close>

text \<open>
  A shallow embedding of \<open>async.backbone.validation.js\<close>: the helper functions
  (\<open>format\<close>, the label formatters, \<open>flatten\<close>), the built-in validators, the rule
  normalizer \<open>getValidators\<close>, the chain of one attribute (\<open>validateAttr\<close> with its
  \<open>invokeValidator\<close>), the run over an entity (\<open>validateModel\<close> with its
  \<open>invokeModel\<close>) and the operations mixed into an entity (\<open>preValidate\<close>, \<open>isValid\<close>,
  \<open>validate\<close>).

  The chains are written in the source as continuations on jQuery deferred objects.
  A deferred is settled at most once, and the function given to \<open>then\<close> runs when it is
  settled; since each chain has one continuation at a time, a chain is modelled as a
  recursive function that returns the state in which it leaves its master deferred,
  together with a log of what was invoked and how it settled. A validator that
  settles its handle later rather than at once gives the same log and the same state;
  a validator that never settles it leaves the chain unsettled.

  Three points of JavaScript that the library meets on ordinary inputs are part of
  the model. The own properties of an object are enumerated with the array indices
  first, in ascending order, and the other names after them in the order in which they
  were written. \<open>_.each\<close> iterates over an object with a numeric \<open>length\<close> by index, as
  over an array. A read of a property that an object does not have itself finds the
  members of \<open>Object.prototype\<close>, so that an attribute named \<open>toString\<close> has a rule
  even if none is declared for it.

  Limits of the model: numbers are integers and strings are ASCII; a validator
  function does one of four things with its result handle (see \<open>behaviour\<close>); objects
  have no identity, and none has a property of its own named \<open>hasOwnProperty\<close>, the
  one inherited member that the library calls on the values it flattens; the
  regular-expression engine, the conversion of strings to numbers and the user-supplied
  functions are parameters.
\<close>

section \<open>JavaScript values\<close>

text \<open>
  The fragment of JavaScript values the validation library handles. \<open>Opaque\<close> stands
  for the host objects that \<open>flatten\<close> treats as leaves (Date, RegExp, Backbone.Model
  and Backbone.Collection instances), told apart by an identity; \<open>Fun\<close> is a
  reference to a user-supplied function, whose behaviour is looked up in the
  environment; \<open>Native\<close> is a function of \<open>Object.prototype\<close>, by its name: the
  value that a read finds on a plain object without a property of its own under that
  name. A plain object is given by its own enumerable properties, in the order in
  which they were written.
\<close>

datatype jsval =
    Undefined
  | Null
  | Bool bool
  | Num int
  | Str string
  | Obj "(string \<times> jsval) list"
  | Arr "jsval list"
  | Opaque nat
  | Fun nat
  | Native string

datatype error = TypeError

text \<open>Regular expressions: one of the named entries of \<open>defaultPatterns\<close>, or whatever
  \<open>String.prototype.match\<close> makes of another value.\<close>

datatype regex = Named string | FromValue jsval

text \<open>What a validator function does with the result handle it is given: it resolves
  it, rejects it with a message, raises before settling it, or returns without ever
  settling it.\<close>

datatype behaviour = Resolves | Rejects jsval | Throws | Pending

datatype label_formatter = LF_none | LF_sentenceCase | LF_label

text \<open>A rule declaration for one attribute: a function, a string, one mapping from
  validator kind to parameter, or an array of such mappings; \<open>DeclNative\<close> is a
  function of \<open>Object.prototype\<close>, which is what the rules object yields for an
  attribute that is named like one and has no rule of its own.\<close>

datatype decl =
    DeclFn nat
  | DeclStr string
  | DeclObj "(string \<times> jsval) list"
  | DeclArr "(string \<times> jsval) list list"
  | DeclNative string

record entity =
  attributes :: "(string \<times> jsval) list"
  validation :: "(string \<times> decl) list option"
  labels :: "(string \<times> string) list option"
  members :: "(string \<times> jsval) list"
  isValid_flag :: "bool option"

text \<open>What a call binds to the parameter \<open>model\<close>: an entity, or (in \<open>isValid\<close>) the
  attribute path, a string.\<close>

datatype subject = Entity entity | PathString string

text \<open>
  The environment holds what lies outside the library: the regular-expression
  engine (\<open>None\<close> when compiling the pattern raises), the conversion of a string
  to a number (\<open>None\<close> is NaN), the string conversion of host objects and functions,
  the behaviour of user-supplied functions used as validators and as \<open>required\<close>
  predicates (\<open>None\<close> when the predicate raises), and the global option
  \<open>defaultOptions.labelFormatter\<close>.
\<close>

record env =
  re_test :: "regex \<Rightarrow> string \<Rightarrow> bool option"
  str_num :: "string \<Rightarrow> int option"
  host_str :: "jsval \<Rightarrow> string"
  validator_fns :: "nat \<Rightarrow> subject \<Rightarrow> jsval \<Rightarrow> jsval \<Rightarrow> jsval \<Rightarrow> behaviour"
  predicate_fns :: "nat \<Rightarrow> subject \<Rightarrow> jsval \<Rightarrow> jsval \<Rightarrow> jsval \<Rightarrow> jsval option"
  labelFormatter :: label_formatter

section \<open>Primitive operations\<close>

definition digit_char :: "nat \<Rightarrow> char" where
  "digit_char n = ''0123456789'' ! n"

function show_nat :: "nat \<Rightarrow> string" where
  "show_nat n = (if n < 10 then [digit_char n] else show_nat (n div 10) @ [digit_char (n mod 10)])"
  by pat_completeness auto
termination
  by (relation "measure id") auto

declare show_nat.simps [simp del]

definition show_int :: "int \<Rightarrow> string" where
  "show_int i = (if i < 0 then CHR ''-'' # show_nat (nat (- i)) else show_nat (nat i))"

fun join_with :: "string \<Rightarrow> string list \<Rightarrow> string" where
  "join_with sep [] = []"
| "join_with sep [s] = s"
| "join_with sep (s # t # ss) = s @ sep @ join_with sep (t # ss)"

text \<open>ToString. Array elements that are null or undefined print as the empty string.\<close>

fun to_str :: "env \<Rightarrow> jsval \<Rightarrow> string" where
  "to_str E Undefined = ''undefined''"
| "to_str E Null = ''null''"
| "to_str E (Bool b) = (if b then ''true'' else ''false'')"
| "to_str E (Num n) = show_int n"
| "to_str E (Str s) = s"
| "to_str E (Obj kvs) = ''[object Object]''"
| "to_str E (Arr vs) =
     join_with '','' (map (\<lambda>v. if v = Undefined \<or> v = Null then [] else to_str E v) vs)"
| "to_str E (Opaque i) = host_str E (Opaque i)"
| "to_str E (Fun i) = host_str E (Fun i)"
| "to_str E (Native n) = host_str E (Native n)"

definition truthy :: "jsval \<Rightarrow> bool" where
  "truthy v = (v \<noteq> Undefined \<and> v \<noteq> Null \<and> v \<noteq> Bool False \<and> v \<noteq> Num 0 \<and> v \<noteq> Str [])"

text \<open>Strict equality. Plain objects and arrays carry no identity in the model, so two
  of them are never taken to be the same object.\<close>

definition strict_eq :: "jsval \<Rightarrow> jsval \<Rightarrow> bool" where
  "strict_eq a b = (case a of Obj _ \<Rightarrow> False | Arr _ \<Rightarrow> False | _ \<Rightarrow> a = b)"

definition is_digit :: "char \<Rightarrow> bool" where
  "is_digit c = (c \<in> set ''0123456789'')"

definition digit_val :: "char \<Rightarrow> nat" where
  "digit_val c = (of_char c :: nat) - 48"

definition digits_val :: "string \<Rightarrow> nat" where
  "digits_val ds = foldl (\<lambda>n c. 10 * n + digit_val c) 0 ds"

text \<open>An array index written as a property name: decimal digits without a leading zero.\<close>

definition index_of_key :: "string \<Rightarrow> nat option" where
  "index_of_key k =
     (if k \<noteq> [] \<and> list_all is_digit k \<and> (k = ''0'' \<or> hd k \<noteq> CHR ''0'')
      then Some (digits_val k) else None)"

text \<open>The property names that are array indices: the indices below \<open>2^32 - 1\<close>.
  The enumeration of an object lists these first, in ascending order.\<close>

definition digits_int :: "string \<Rightarrow> int" where
  "digits_int ds = foldl (\<lambda>n c. 10 * n + int (digit_val c)) 0 ds"

definition array_index :: "string \<Rightarrow> int option" where
  "array_index k =
     (if k \<noteq> [] \<and> list_all is_digit k \<and> (k = ''0'' \<or> hd k \<noteq> CHR ''0'')
         \<and> digits_int k < 4294967295
      then Some (digits_int k) else None)"

text \<open>What a plain object inherits from \<open>Object.prototype\<close> under a name: one of its
  functions or, under \<open>__proto__\<close>, the prototype itself, an object without enumerable
  properties.\<close>

definition inherited :: "string \<Rightarrow> jsval option" where
  "inherited name =
     (if name \<in> set [''constructor'', ''toString'', ''toLocaleString'', ''valueOf'',
                      ''hasOwnProperty'', ''isPrototypeOf'', ''propertyIsEnumerable'',
                      ''__defineGetter__'', ''__defineSetter__'',
                      ''__lookupGetter__'', ''__lookupSetter__'']
      then Some (Native name)
      else if name = ''__proto__'' then Some (Obj [])
      else None)"

definition is_function :: "jsval \<Rightarrow> bool" where
  "is_function v = (case v of Fun _ \<Rightarrow> True | Native _ \<Rightarrow> True | _ \<Rightarrow> False)"

text \<open>Property read \<open>o[k]\<close>; \<open>None\<close> is the TypeError raised on null and undefined.
  A plain object yields its own property, or else what it inherits. The inherited
  members of arrays, strings and host objects are not modelled.\<close>

definition get_prop :: "jsval \<Rightarrow> string \<Rightarrow> jsval option" where
  "get_prop v k =
     (case v of
        Undefined \<Rightarrow> None
      | Null \<Rightarrow> None
      | Obj kvs \<Rightarrow>
          Some (case map_of kvs k of
                  Some x \<Rightarrow> x
                | None \<Rightarrow> (case inherited k of Some x \<Rightarrow> x | None \<Rightarrow> Undefined))
      | Arr vs \<Rightarrow>
          (case index_of_key k of
             Some i \<Rightarrow> Some (if i < length vs then vs ! i else Undefined)
           | None \<Rightarrow> Some (if k = ''length'' then Num (int (length vs)) else Undefined))
      | Str s \<Rightarrow>
          (case index_of_key k of
             Some i \<Rightarrow> Some (if i < length s then Str [s ! i] else Undefined)
           | None \<Rightarrow> Some (if k = ''length'' then Num (int (length s)) else Undefined))
      | _ \<Rightarrow> Some Undefined)"

definition to_number :: "env \<Rightarrow> jsval \<Rightarrow> int option" where
  "to_number E v =
     (case v of
        Null \<Rightarrow> Some 0
      | Bool b \<Rightarrow> Some (if b then 1 else 0)
      | Num n \<Rightarrow> Some n
      | Str s \<Rightarrow> str_num E s
      | _ \<Rightarrow> None)"

fun str_lt :: "string \<Rightarrow> string \<Rightarrow> bool" where
  "str_lt [] [] = False"
| "str_lt [] (y # ys) = True"
| "str_lt (x # xs) [] = False"
| "str_lt (x # xs) (y # ys) =
     (if (of_char x :: nat) < of_char y then True
      else if (of_char y :: nat) < of_char x then False
      else str_lt xs ys)"

definition to_primitive :: "env \<Rightarrow> jsval \<Rightarrow> jsval" where
  "to_primitive E v =
     (case v of
        Obj _ \<Rightarrow> Str (to_str E v)
      | Arr _ \<Rightarrow> Str (to_str E v)
      | Opaque _ \<Rightarrow> Str (to_str E v)
      | Fun _ \<Rightarrow> Str (to_str E v)
      | Native _ \<Rightarrow> Str (to_str E v)
      | _ \<Rightarrow> v)"

text \<open>The relational comparison \<open>a < b\<close>: two strings compare by code unit, anything
  else as numbers, and a comparison with NaN is false.\<close>

definition js_lt :: "env \<Rightarrow> jsval \<Rightarrow> jsval \<Rightarrow> bool" where
  "js_lt E a b =
     (case (to_primitive E a, to_primitive E b) of
        (Str s, Str t) \<Rightarrow> str_lt s t
      | (p, q) \<Rightarrow>
          (case (to_number E p, to_number E q) of
             (Some x, Some y) \<Rightarrow> x < y
           | _ \<Rightarrow> False))"

section \<open>Objects as association lists\<close>

text \<open>
  An object that the library builds is kept in the order in which its properties are
  enumerated (by \<open>for in\<close>, \<open>_.keys\<close>, \<open>_.each\<close> and \<open>_.pairs\<close>): the array indices in
  ascending order, then the other names in the order in which they were first
  assigned.
\<close>

definition has_key :: "('k \<times> 'v) list \<Rightarrow> 'k \<Rightarrow> bool" where
  "has_key kvs k = (k \<in> set (map fst kvs))"

definition property :: "(string \<times> jsval) list \<Rightarrow> string \<Rightarrow> jsval" where
  "property kvs k = (case map_of kvs k of Some v \<Rightarrow> v | None \<Rightarrow> Undefined)"

fun update_entry :: "string \<Rightarrow> 'v \<Rightarrow> (string \<times> 'v) list \<Rightarrow> (string \<times> 'v) list" where
  "update_entry k v [] = []"
| "update_entry k v ((k', v') # r) =
     (if k' = k then (k, v) # r else (k', v') # update_entry k v r)"

fun insert_indexed :: "int \<Rightarrow> string \<Rightarrow> 'v \<Rightarrow> (string \<times> 'v) list \<Rightarrow> (string \<times> 'v) list" where
  "insert_indexed i k v [] = [(k, v)]"
| "insert_indexed i k v ((k', v') # r) =
     (case array_index k' of
        Some j \<Rightarrow> if j < i then (k', v') # insert_indexed i k v r else (k, v) # (k', v') # r
      | None \<Rightarrow> (k, v) # (k', v') # r)"

text \<open>\<open>o[k] = v\<close>: an existing property keeps its place; a new array index goes to its
  place among the indices; any other new name goes last.\<close>

definition assign :: "(string \<times> 'v) list \<Rightarrow> string \<Rightarrow> 'v \<Rightarrow> (string \<times> 'v) list" where
  "assign kvs k v =
     (if has_key kvs k then update_entry k v kvs
      else (case array_index k of
              Some i \<Rightarrow> insert_indexed i k v kvs
            | None \<Rightarrow> kvs @ [(k, v)]))"

text \<open>\<open>_.extend(target, source)\<close> copies every property of the source.\<close>

definition js_extend :: "(string \<times> 'v) list \<Rightarrow> (string \<times> 'v) list \<Rightarrow> (string \<times> 'v) list" where
  "js_extend target source = fold (\<lambda>kv acc. assign acc (fst kv) (snd kv)) source target"

text \<open>The properties of an object as written, in the order of their enumeration.\<close>

definition enumerate_obj :: "(string \<times> 'v) list \<Rightarrow> (string \<times> 'v) list" where
  "enumerate_obj kvs = js_extend [] kvs"

section \<open>Helper functions of the library\<close>

subsection \<open>Message formatting\<close>

text \<open>\<open>format\<close> replaces every \<open>{n}\<close> by the n-th argument after the text, unless that
  argument is undefined.\<close>

definition placeholder :: "env \<Rightarrow> jsval list \<Rightarrow> string \<Rightarrow> string" where
  "placeholder E args ds =
     (case index_of_key ds of
        Some i \<Rightarrow>
          (if i < length args \<and> args ! i \<noteq> Undefined then to_str E (args ! i)
           else CHR ''{'' # ds @ ''}'')
      | None \<Rightarrow> CHR ''{'' # ds @ ''}'')"

function format_scan :: "env \<Rightarrow> jsval list \<Rightarrow> string \<Rightarrow> string" where
  "format_scan E args [] = []"
| "format_scan E args (c # cs) =
     (if c = CHR ''{'' \<and> takeWhile is_digit cs \<noteq> [] \<and> dropWhile is_digit cs \<noteq> []
         \<and> hd (dropWhile is_digit cs) = CHR ''}''
      then placeholder E args (takeWhile is_digit cs)
             @ format_scan E args (tl (dropWhile is_digit cs))
      else c # format_scan E args cs)"
  by pat_completeness auto
termination
proof (relation "measure (\<lambda>(E, args, s). length s)")
  show "wf (measure (\<lambda>(E, args, s). length s))" by simp
next
  fix E :: env and args :: "jsval list" and c :: char and cs :: string
  have "length (dropWhile is_digit cs) \<le> length cs" by (rule length_dropWhile_le)
  then show "((E, args, tl (dropWhile is_digit cs)), (E, args, c # cs))
      \<in> measure (\<lambda>(E, args, s). length s)" by simp
next
  fix E :: env and args :: "jsval list" and c :: char and cs :: string
  show "((E, args, cs), (E, args, c # cs)) \<in> measure (\<lambda>(E, args, s). length s)" by simp
qed

definition format :: "env \<Rightarrow> string \<Rightarrow> jsval list \<Rightarrow> string" where
  "format E text args = format_scan E args text"

subsection \<open>Label formatting\<close>

definition is_upper :: "char \<Rightarrow> bool" where
  "is_upper c = (c \<in> set ''ABCDEFGHIJKLMNOPQRSTUVWXYZ'')"

definition is_lower :: "char \<Rightarrow> bool" where
  "is_lower c = (c \<in> set ''abcdefghijklmnopqrstuvwxyz'')"

definition is_word :: "char \<Rightarrow> bool" where
  "is_word c = (is_upper c \<or> is_lower c \<or> is_digit c \<or> c = CHR ''_'')"

definition toUpperCase :: "char \<Rightarrow> char" where
  "toUpperCase c = (if is_lower c then char_of ((of_char c :: nat) - 32) else c)"

definition toLowerCase :: "char \<Rightarrow> char" where
  "toLowerCase c = (if is_upper c then char_of ((of_char c :: nat) + 32) else c)"

text \<open>The first replacement of \<open>sentenceCase\<close>: a match of \<open>^\w\<close>, \<open>[A-Z]\<close> or \<open>\b\w\<close>
  is upper-cased at index 0, and otherwise lower-cased after a space. The first
  argument says whether the character before is a word character.\<close>

fun case_scan :: "bool \<Rightarrow> bool \<Rightarrow> string \<Rightarrow> string" where
  "case_scan first prev [] = []"
| "case_scan first prev (c # cs) =
     (if is_upper c \<or> (is_word c \<and> \<not> prev)
      then (if first then [toUpperCase c] else [CHR '' '', toLowerCase c])
             @ case_scan False (is_word c) cs
      else c # case_scan False (is_word c) cs)"

text \<open>\<open>replace('_', ' ')\<close> with a string pattern replaces the first occurrence only.\<close>

fun replace_first :: "char \<Rightarrow> char \<Rightarrow> string \<Rightarrow> string" where
  "replace_first a b [] = []"
| "replace_first a b (c # cs) = (if c = a then b # cs else c # replace_first a b cs)"

definition sentenceCase :: "string \<Rightarrow> string" where
  "sentenceCase attrName = replace_first (CHR ''_'') (CHR '' '') (case_scan True False attrName)"

text \<open>\<open>formatLabel\<close>; \<open>None\<close> when the formatter raises because the name is not a
  string. The \<open>label\<close> formatter reads \<open>model.labels[attrName]\<close>, which also finds what
  the labels object inherits.\<close>

definition sentenceCase_of :: "jsval \<Rightarrow> jsval option" where
  "sentenceCase_of attrName =
     (case attrName of Str s \<Rightarrow> Some (Str (sentenceCase s)) | _ \<Rightarrow> None)"

definition labels_of :: "subject \<Rightarrow> (string \<times> string) list option" where
  "labels_of model = (case model of Entity m \<Rightarrow> labels m | PathString _ \<Rightarrow> None)"

definition formatLabel :: "env \<Rightarrow> jsval \<Rightarrow> subject \<Rightarrow> jsval option" where
  "formatLabel E attrName model =
     (case labelFormatter E of
        LF_none \<Rightarrow> Some attrName
      | LF_sentenceCase \<Rightarrow> sentenceCase_of attrName
      | LF_label \<Rightarrow>
          (case labels_of model of
             None \<Rightarrow> sentenceCase_of attrName
           | Some ls \<Rightarrow>
               (case map_of ls (to_str E attrName) of
                  None \<Rightarrow>
                    (case inherited (to_str E attrName) of
                       Some x \<Rightarrow> Some x
                     | None \<Rightarrow> sentenceCase_of attrName)
                | Some l \<Rightarrow> if l = [] then sentenceCase_of attrName else Some (Str l))))"

subsection \<open>Flattening\<close>

definition is_container :: "jsval \<Rightarrow> bool" where
  "is_container val = (case val of Obj _ \<Rightarrow> True | Arr _ \<Rightarrow> True | _ \<Rightarrow> False)"

text \<open>What \<open>_.each\<close> visits: the elements of an array with their indices; for an
  object with a numeric \<open>length\<close>, which it takes for an array, what the object holds
  under the indices below that length; for any other object, its properties.\<close>

definition each_items :: "jsval \<Rightarrow> (string \<times> jsval) list" where
  "each_items obj =
     (case obj of
        Obj kvs \<Rightarrow>
          (case map_of kvs ''length'' of
             Some (Num n) \<Rightarrow> map (\<lambda>i. (show_nat i, property kvs (show_nat i))) [0..<nat n]
           | _ \<Rightarrow> enumerate_obj kvs)
      | Arr vs \<Rightarrow> zip (map show_nat [0..<length vs]) vs
      | _ \<Rightarrow> [])"

definition hasOwnProperty :: "jsval \<Rightarrow> string \<Rightarrow> bool" where
  "hasOwnProperty obj key =
     (case obj of
        Obj kvs \<Rightarrow> has_key kvs key
      | Arr vs \<Rightarrow> (case index_of_key key of Some i \<Rightarrow> i < length vs | None \<Rightarrow> key = ''length'')
      | _ \<Rightarrow> False)"

text \<open>The items that the function given to \<open>_.each\<close> in \<open>flatten\<close> accepts: those under
  a property of the object's own.\<close>

definition entries_of :: "jsval \<Rightarrow> (string \<times> jsval) list" where
  "entries_of obj = filter (\<lambda>kv. hasOwnProperty obj (fst kv)) (each_items obj)"

lemma update_entry_subset: "set (update_entry k v kvs) \<subseteq> insert (k, v) (set kvs)"
proof (induction kvs)
  case Nil
  show ?case by simp
next
  case (Cons kv kvs)
  obtain a b where kv: "kv = (a, b)" by (cases kv)
  from Cons.IH show ?case by (auto simp: kv)
qed

lemma insert_indexed_set: "set (insert_indexed i k v kvs) = insert (k, v) (set kvs)"
proof (induction kvs)
  case Nil
  show ?case by simp
next
  case (Cons kv kvs)
  obtain a b where kv: "kv = (a, b)" by (cases kv)
  from Cons.IH show ?case by (cases "array_index a") (auto simp: kv)
qed

lemma assign_subset: "set (assign kvs k v) \<subseteq> insert (k, v) (set kvs)"
  using update_entry_subset [of k v kvs]
  by (auto simp: assign_def insert_indexed_set split: option.splits)

lemma js_extend_Cons:
  "js_extend target (kv # source) = js_extend (assign target (fst kv) (snd kv)) source"
  by (simp add: js_extend_def)

lemma js_extend_subset: "set (js_extend target source) \<subseteq> set target \<union> set source"
proof (induction source arbitrary: target)
  case Nil
  show ?case by (simp add: js_extend_def)
next
  case (Cons kv source)
  have a: "set (js_extend (assign target (fst kv) (snd kv)) source)
          \<subseteq> set (assign target (fst kv) (snd kv)) \<union> set source"
    by (rule Cons.IH)
  have b: "set (assign target (fst kv) (snd kv)) \<subseteq> insert kv (set target)"
    using assign_subset [of target "fst kv" "snd kv"] by simp
  show ?case
  proof
    fix x
    assume "x \<in> set (js_extend target (kv # source))"
    then have "x \<in> set (js_extend (assign target (fst kv) (snd kv)) source)"
      by (simp only: js_extend_Cons)
    then have "x \<in> set (assign target (fst kv) (snd kv)) \<union> set source"
      by (rule subsetD [OF a])
    then show "x \<in> set target \<union> set (kv # source)"
    proof
      assume "x \<in> set (assign target (fst kv) (snd kv))"
      then have "x \<in> insert kv (set target)" by (rule subsetD [OF b])
      then show ?thesis by (elim insertE) simp_all
    next
      assume "x \<in> set source"
      then show ?thesis by simp
    qed
  qed
qed

lemma entries_of_Obj: "kv \<in> set (entries_of (Obj kvs)) \<Longrightarrow> kv \<in> set kvs"
proof -
  assume a: "kv \<in> set (entries_of (Obj kvs))"
  show ?thesis
  proof (cases "\<exists>n. map_of kvs ''length'' = Some (Num n)")
    case True
    then obtain n where n: "map_of kvs ''length'' = Some (Num n)" by blast
    from a n obtain i where kv: "kv = (show_nat i, property kvs (show_nat i))"
      and own: "has_key kvs (show_nat i)"
      by (auto simp: entries_of_def each_items_def hasOwnProperty_def)
    from own obtain x where "map_of kvs (show_nat i) = Some x"
      by (cases "map_of kvs (show_nat i)") (auto simp: has_key_def map_of_eq_None_iff)
    then show ?thesis
      by (auto simp: kv property_def dest: map_of_SomeD)
  next
    case False
    then have "each_items (Obj kvs) = enumerate_obj kvs"
      by (auto simp: each_items_def split: option.splits jsval.splits)
    with a have "kv \<in> set (js_extend [] kvs)"
      by (simp add: entries_of_def enumerate_obj_def)
    then show ?thesis
      using js_extend_subset [of "[]" kvs] by auto
  qed
qed

lemma entries_of_size: "kv \<in> set (entries_of obj) \<Longrightarrow> size (snd kv) < size obj"
proof (cases obj)
  case (Obj kvs)
  assume "kv \<in> set (entries_of obj)"
  with Obj have "kv \<in> set kvs" by (simp add: entries_of_Obj)
  then have "size_prod (\<lambda>_. 0) size kv \<le> size_list (size_prod (\<lambda>_. 0) size) kvs"
    by (simp add: size_list_estimation')
  moreover have "size (snd kv) \<le> size_prod (\<lambda>_. 0) size kv" by (cases kv) simp
  ultimately show ?thesis using Obj by simp
next
  case (Arr vs)
  assume "kv \<in> set (entries_of obj)"
  with Arr have "(fst kv, snd kv) \<in> set (zip (map show_nat [0..<length vs]) vs)"
    by (simp add: entries_of_def each_items_def)
  then have "snd kv \<in> set vs" by (rule set_zip_rightD)
  then have "size (snd kv) \<le> size_list size vs" by (simp add: size_list_estimation')
  then show ?thesis using Arr by simp
qed (simp_all add: entries_of_def each_items_def)

function flatten :: "jsval \<Rightarrow> (string \<times> jsval) list \<Rightarrow> string \<Rightarrow> (string \<times> jsval) list" where
  "flatten obj into prefix =
     fold (\<lambda>kv acc.
             if is_container (snd kv) then flatten (snd kv) acc (prefix @ fst kv @ ''.'')
             else assign acc (prefix @ fst kv) (snd kv))
          (entries_of obj) into"
  by pat_completeness auto
termination
  by (relation "measure (\<lambda>(obj, into, prefix). size obj)") (auto simp: entries_of_size)

declare flatten.simps [simp del]

section \<open>Built-in validators\<close>

definition defaultMessages_required :: string where
  "defaultMessages_required = ''{0} is required''"
definition defaultMessages_acceptance :: string where
  "defaultMessages_acceptance = ''{0} must be accepted''"
definition defaultMessages_min :: string where
  "defaultMessages_min = ''{0} must be greater than or equal to {1}''"
definition defaultMessages_max :: string where
  "defaultMessages_max = ''{0} must be less than or equal to {1}''"
definition defaultMessages_range :: string where
  "defaultMessages_range = ''{0} must be between {1} and {2}''"
definition defaultMessages_length :: string where
  "defaultMessages_length = ''{0} must be {1} characters''"
definition defaultMessages_minLength :: string where
  "defaultMessages_minLength = ''{0} must be at least {1} characters''"
definition defaultMessages_maxLength :: string where
  "defaultMessages_maxLength = ''{0} must be at most {1} characters''"
definition defaultMessages_rangeLength :: string where
  "defaultMessages_rangeLength = ''{0} must be between {1} and {2} characters''"
definition defaultMessages_oneOf :: string where
  "defaultMessages_oneOf = ''{0} must be one of: {1}''"
definition defaultMessages_equalTo :: string where
  "defaultMessages_equalTo = ''{0} must be the same as {1}''"
definition defaultMessages_pattern :: string where
  "defaultMessages_pattern = ''{0} must be a valid {1}''"

definition is_space :: "char \<Rightarrow> bool" where
  "is_space c = ((of_char c :: nat) \<in> {9, 10, 11, 12, 13, 32})"

definition trim_str :: "string \<Rightarrow> string" where
  "trim_str s = rev (dropWhile is_space (rev (dropWhile is_space s)))"

text \<open>\<open>trim\<close>; \<open>None\<close> is the TypeError that \<open>String.prototype.trim\<close> raises on
  undefined.\<close>

definition trim :: "env \<Rightarrow> jsval \<Rightarrow> string option" where
  "trim E text =
     (case text of
        Null \<Rightarrow> Some []
      | Undefined \<Rightarrow> None
      | _ \<Rightarrow> Some (trim_str (to_str E text)))"

definition isNumber :: "env \<Rightarrow> jsval \<Rightarrow> bool" where
  "isNumber E v =
     (case v of
        Num _ \<Rightarrow> True
      | Str s \<Rightarrow> re_test E (Named ''number'') s = Some True
      | _ \<Rightarrow> False)"

definition hasValue :: "jsval \<Rightarrow> bool" where
  "hasValue v =
     (\<not> (v = Null \<or> v = Undefined \<or> (case v of Str s \<Rightarrow> trim_str s = [] | _ \<Rightarrow> False)))"

text \<open>\<open>validation.reject(this.format(template, ...))\<close>: an argument that raises while it
  is computed makes the validator raise.\<close>

definition reject :: "env \<Rightarrow> string \<Rightarrow> jsval option list \<Rightarrow> behaviour" where
  "reject E template args =
     (if None \<in> set args then Throws else Rejects (Str (format E template (map the args))))"

definition member_of :: "subject \<Rightarrow> string \<Rightarrow> jsval" where
  "member_of model name =
     (case model of
        Entity m \<Rightarrow> (case map_of (members m) name of Some v \<Rightarrow> v | None \<Rightarrow> Undefined)
      | PathString s \<Rightarrow> (case get_prop (Str s) name of Some v \<Rightarrow> v | None \<Rightarrow> Undefined))"

text \<open>The \<open>fn\<close> validator calls \<open>fn(validator, model, value, attr, computed)\<close>, in
  strict mode, so without a \<open>this\<close>. Of the functions of \<open>Object.prototype\<close>,
  \<open>toString\<close> and \<open>constructor\<close> return when called so, and the others raise;
  none of them touches the result handle.\<close>

definition fn_validator ::
  "env \<Rightarrow> jsval \<Rightarrow> jsval \<Rightarrow> jsval \<Rightarrow> subject \<Rightarrow> jsval \<Rightarrow> behaviour" where
  "fn_validator E value attr fnp model computed =
     (case (case fnp of Str name \<Rightarrow> member_of model name | _ \<Rightarrow> fnp) of
        Fun f \<Rightarrow> validator_fns E f model value attr computed
      | Native n \<Rightarrow> if n \<in> set [''toString'', ''constructor''] then Pending else Throws
      | _ \<Rightarrow> Throws)"

text \<open>Whether \<open>required.call(model, value, attr, computed)\<close> is truthy when \<open>required\<close> is
  a function of \<open>Object.prototype\<close>; \<open>None\<close> when the call raises. The members of
  an entity are taken for properties of its own.\<close>

definition own_member :: "subject \<Rightarrow> string \<Rightarrow> bool" where
  "own_member model name =
     (case model of
        Entity m \<Rightarrow> has_key (members m) name
      | PathString s \<Rightarrow>
          (case index_of_key name of Some i \<Rightarrow> i < length s | None \<Rightarrow> name = ''length''))"

definition native_predicate ::
  "env \<Rightarrow> string \<Rightarrow> subject \<Rightarrow> jsval \<Rightarrow> jsval \<Rightarrow> bool option" where
  "native_predicate E n model value attr =
     (if n \<in> set [''constructor'', ''toString'', ''toLocaleString'', ''valueOf'']
      then Some True
      else if n = ''hasOwnProperty'' then Some (own_member model (to_str E value))
      else if n = ''propertyIsEnumerable''
      then Some (own_member model (to_str E value)
                 \<and> (case model of Entity m \<Rightarrow> True | PathString s \<Rightarrow> to_str E value \<noteq> ''length''))
      else if n \<in> set [''__defineGetter__'', ''__defineSetter__'']
      then (if is_function attr then Some False else None)
      else Some False)"

definition required ::
  "env \<Rightarrow> jsval \<Rightarrow> jsval \<Rightarrow> jsval \<Rightarrow> subject \<Rightarrow> jsval \<Rightarrow> behaviour" where
  "required E value attr req model computed =
     (case (case req of
              Fun f \<Rightarrow> map_option truthy (predicate_fns E f model value attr computed)
            | Native n \<Rightarrow> native_predicate E n model value attr
            | _ \<Rightarrow> Some (truthy req)) of
        None \<Rightarrow> Throws
      | Some isRequired \<Rightarrow>
          if \<not> isRequired \<and> \<not> hasValue value then Resolves
          else if isRequired \<and> \<not> hasValue value
          then reject E defaultMessages_required [formatLabel E attr model]
          else Resolves)"

definition acceptance ::
  "env \<Rightarrow> jsval \<Rightarrow> jsval \<Rightarrow> jsval \<Rightarrow> subject \<Rightarrow> jsval \<Rightarrow> behaviour" where
  "acceptance E value attr accept model computed =
     (if \<not> strict_eq value (Str ''true'')
         \<and> (\<not> (case value of Bool _ \<Rightarrow> True | _ \<Rightarrow> False) \<or> strict_eq value (Bool False))
      then reject E defaultMessages_acceptance [formatLabel E attr model]
      else Resolves)"

definition min_validator ::
  "env \<Rightarrow> jsval \<Rightarrow> jsval \<Rightarrow> jsval \<Rightarrow> subject \<Rightarrow> jsval \<Rightarrow> behaviour" where
  "min_validator E value attr minValue model computed =
     (if \<not> isNumber E value \<or> js_lt E value minValue
      then reject E defaultMessages_min [formatLabel E attr model, Some minValue]
      else Resolves)"

definition max_validator ::
  "env \<Rightarrow> jsval \<Rightarrow> jsval \<Rightarrow> jsval \<Rightarrow> subject \<Rightarrow> jsval \<Rightarrow> behaviour" where
  "max_validator E value attr maxValue model computed =
     (if \<not> isNumber E value \<or> js_lt E maxValue value
      then reject E defaultMessages_max [formatLabel E attr model, Some maxValue]
      else Resolves)"

definition range_validator ::
  "env \<Rightarrow> jsval \<Rightarrow> jsval \<Rightarrow> jsval \<Rightarrow> subject \<Rightarrow> jsval \<Rightarrow> behaviour" where
  "range_validator E value attr rng model computed =
     (if \<not> isNumber E value
      then reject E defaultMessages_range
             [formatLabel E attr model, get_prop rng ''0'', get_prop rng ''1'']
      else
        (case (get_prop rng ''0'', get_prop rng ''1'') of
           (Some lo, Some hi) \<Rightarrow>
             if js_lt E value lo \<or> js_lt E hi value
             then reject E defaultMessages_range [formatLabel E attr model, Some lo, Some hi]
             else Resolves
         | _ \<Rightarrow> Throws))"

definition length_validator ::
  "env \<Rightarrow> jsval \<Rightarrow> jsval \<Rightarrow> jsval \<Rightarrow> subject \<Rightarrow> jsval \<Rightarrow> behaviour" where
  "length_validator E value attr len model computed =
     (if \<not> hasValue value
      then reject E defaultMessages_length [formatLabel E attr model, Some len]
      else
        (case trim E value of
           None \<Rightarrow> Throws
         | Some t \<Rightarrow>
             if \<not> strict_eq (Num (int (length t))) len
             then reject E defaultMessages_length [formatLabel E attr model, Some len]
             else Resolves))"

definition minLength ::
  "env \<Rightarrow> jsval \<Rightarrow> jsval \<Rightarrow> jsval \<Rightarrow> subject \<Rightarrow> jsval \<Rightarrow> behaviour" where
  "minLength E value attr minLen model computed =
     (if \<not> hasValue value
      then reject E defaultMessages_minLength [formatLabel E attr model, Some minLen]
      else
        (case trim E value of
           None \<Rightarrow> Throws
         | Some t \<Rightarrow>
             if js_lt E (Num (int (length t))) minLen
             then reject E defaultMessages_minLength [formatLabel E attr model, Some minLen]
             else Resolves))"

definition maxLength ::
  "env \<Rightarrow> jsval \<Rightarrow> jsval \<Rightarrow> jsval \<Rightarrow> subject \<Rightarrow> jsval \<Rightarrow> behaviour" where
  "maxLength E value attr maxLen model computed =
     (if \<not> hasValue value
      then reject E defaultMessages_maxLength [formatLabel E attr model, Some maxLen]
      else
        (case trim E value of
           None \<Rightarrow> Throws
         | Some t \<Rightarrow>
             if js_lt E maxLen (Num (int (length t)))
             then reject E defaultMessages_maxLength [formatLabel E attr model, Some maxLen]
             else Resolves))"

definition rangeLength ::
  "env \<Rightarrow> jsval \<Rightarrow> jsval \<Rightarrow> jsval \<Rightarrow> subject \<Rightarrow> jsval \<Rightarrow> behaviour" where
  "rangeLength E value attr rng model computed =
     (if \<not> hasValue value
      then reject E defaultMessages_rangeLength
             [formatLabel E attr model, get_prop rng ''0'', get_prop rng ''1'']
      else
        (case (trim E value, get_prop rng ''0'', get_prop rng ''1'') of
           (Some t, Some lo, Some hi) \<Rightarrow>
             if js_lt E (Num (int (length t))) lo \<or> js_lt E hi (Num (int (length t)))
             then reject E defaultMessages_rangeLength
                    [formatLabel E attr model, Some lo, Some hi]
             else Resolves
         | _ \<Rightarrow> Throws))"

text \<open>\<open>_.include\<close>: membership by strict equality among the elements of an array, the
  values that \<open>_.each\<close> visits in an object or the characters of a string.\<close>

definition include_val :: "jsval \<Rightarrow> jsval \<Rightarrow> bool" where
  "include_val obj target =
     (case obj of
        Arr vs \<Rightarrow> list_ex (\<lambda>x. strict_eq x target) vs
      | Obj kvs \<Rightarrow> list_ex (\<lambda>kv. strict_eq (snd kv) target) (each_items obj)
      | Str s \<Rightarrow> list_ex (\<lambda>c. strict_eq (Str [c]) target) s
      | _ \<Rightarrow> False)"

text \<open>\<open>values.join(', ')\<close>; only an array has \<open>join\<close>.\<close>

definition join :: "env \<Rightarrow> jsval \<Rightarrow> jsval option" where
  "join E vals =
     (case vals of
        Arr vs \<Rightarrow>
          Some (Str (join_with '', ''
            (map (\<lambda>v. if v = Undefined \<or> v = Null then [] else to_str E v) vs)))
      | _ \<Rightarrow> None)"

definition oneOf ::
  "env \<Rightarrow> jsval \<Rightarrow> jsval \<Rightarrow> jsval \<Rightarrow> subject \<Rightarrow> jsval \<Rightarrow> behaviour" where
  "oneOf E value attr vals model computed =
     (if \<not> include_val vals value
      then reject E defaultMessages_oneOf [formatLabel E attr model, join E vals]
      else Resolves)"

definition equalTo ::
  "env \<Rightarrow> jsval \<Rightarrow> jsval \<Rightarrow> jsval \<Rightarrow> subject \<Rightarrow> jsval \<Rightarrow> behaviour" where
  "equalTo E value attr other model computed =
     (case get_prop computed (to_str E other) of
        None \<Rightarrow> Throws
      | Some sibling \<Rightarrow>
          if \<not> strict_eq value sibling
          then reject E defaultMessages_equalTo
                 [formatLabel E attr model, formatLabel E other model]
          else Resolves)"

text \<open>\<open>defaultPatterns[pattern] || pattern\<close>: a named pattern, or what the patterns
  object inherits under that name, or the parameter itself.\<close>

definition resolve_pattern :: "env \<Rightarrow> jsval \<Rightarrow> regex" where
  "resolve_pattern E pat =
     (if to_str E pat \<in> set [''digits'', ''number'', ''email'', ''url'']
      then Named (to_str E pat)
      else (case inherited (to_str E pat) of Some x \<Rightarrow> FromValue x | None \<Rightarrow> FromValue pat))"

definition pattern ::
  "env \<Rightarrow> jsval \<Rightarrow> jsval \<Rightarrow> jsval \<Rightarrow> subject \<Rightarrow> jsval \<Rightarrow> behaviour" where
  "pattern E value attr pat model computed =
     (if \<not> hasValue value
      then reject E defaultMessages_pattern [formatLabel E attr model, Some pat]
      else
        (case re_test E (resolve_pattern E pat) (to_str E value) of
           None \<Rightarrow> Throws
         | Some matched \<Rightarrow>
             if \<not> matched
             then reject E defaultMessages_pattern [formatLabel E attr model, Some pat]
             else Resolves))"

section \<open>The validator registry\<close>

datatype vkind =
    K_fn | K_required | K_acceptance | K_min | K_max | K_range | K_length
  | K_minLength | K_maxLength | K_rangeLength | K_oneOf | K_equalTo | K_pattern

text \<open>What \<open>defaultValidators[name]\<close> yields: a built-in validator, a function that
  the registry object inherits from \<open>Object.prototype\<close>, or nothing that can be
  called.\<close>

datatype callable = Builtin vkind | Inherited string | NotCallable

definition defaultValidators :: "string \<Rightarrow> callable" where
  "defaultValidators name =
     (case map_of
        [(''fn'', K_fn), (''required'', K_required), (''acceptance'', K_acceptance),
         (''min'', K_min), (''max'', K_max), (''range'', K_range), (''length'', K_length),
         (''minLength'', K_minLength), (''maxLength'', K_maxLength),
         (''rangeLength'', K_rangeLength), (''oneOf'', K_oneOf), (''equalTo'', K_equalTo),
         (''pattern'', K_pattern)] name of
        Some k \<Rightarrow> Builtin k
      | None \<Rightarrow>
          (case inherited name of Some (Native n) \<Rightarrow> Inherited n | _ \<Rightarrow> NotCallable))"

record descriptor =
  fn :: callable
  val :: jsval
  msg :: jsval

text \<open>A function of \<open>Object.prototype\<close> called on the context object with the result
  handle and the value as its first arguments: \<open>__defineGetter__\<close> and
  \<open>__defineSetter__\<close> raise unless the value is a function; every other one returns.
  None of them touches the result handle.\<close>

definition call_inherited :: "string \<Rightarrow> jsval \<Rightarrow> behaviour" where
  "call_inherited n value =
     (if n \<in> set [''__defineGetter__'', ''__defineSetter__'']
      then (if is_function value then Pending else Throws)
      else Pending)"

text \<open>\<open>validator.fn.call(ctx, result, value, attr, validator.val, model, computed)\<close>.
  Calling what is not a function raises.\<close>

definition call_validator ::
  "env \<Rightarrow> descriptor \<Rightarrow> jsval \<Rightarrow> jsval \<Rightarrow> subject \<Rightarrow> jsval \<Rightarrow> behaviour" where
  "call_validator E validator value attr model computed =
     (case fn validator of
        NotCallable \<Rightarrow> Throws
      | Inherited n \<Rightarrow> call_inherited n value
      | Builtin k \<Rightarrow>
          (case k of
             K_fn \<Rightarrow> fn_validator E value attr (val validator) model computed
           | K_required \<Rightarrow> required E value attr (val validator) model computed
           | K_acceptance \<Rightarrow> acceptance E value attr (val validator) model computed
           | K_min \<Rightarrow> min_validator E value attr (val validator) model computed
           | K_max \<Rightarrow> max_validator E value attr (val validator) model computed
           | K_range \<Rightarrow> range_validator E value attr (val validator) model computed
           | K_length \<Rightarrow> length_validator E value attr (val validator) model computed
           | K_minLength \<Rightarrow> minLength E value attr (val validator) model computed
           | K_maxLength \<Rightarrow> maxLength E value attr (val validator) model computed
           | K_rangeLength \<Rightarrow> rangeLength E value attr (val validator) model computed
           | K_oneOf \<Rightarrow> oneOf E value attr (val validator) model computed
           | K_equalTo \<Rightarrow> equalTo E value attr (val validator) model computed
           | K_pattern \<Rightarrow> pattern E value attr (val validator) model computed))"

section \<open>Validation\<close>

definition validation_of :: "subject \<Rightarrow> (string \<times> decl) list option" where
  "validation_of model = (case model of Entity m \<Rightarrow> validation m | PathString _ \<Rightarrow> None)"

definition getValidatedAttrs :: "entity \<Rightarrow> (string \<times> jsval) list" where
  "getValidatedAttrs model =
     fold (\<lambda>key memo. assign memo key Undefined)
       (map fst (case validation model of None \<Rightarrow> [] | Some rules \<Rightarrow> rules)) []"

text \<open>The descriptors of one mapping: one for each key other than \<open>msg\<close>.\<close>

definition descriptors_of :: "(string \<times> jsval) list \<Rightarrow> descriptor list" where
  "descriptors_of attrValidation =
     map (\<lambda>validator.
            \<lparr>fn = defaultValidators validator,
             val = property attrValidation validator,
             msg = property attrValidation ''msg''\<rparr>)
         (filter (\<lambda>key. key \<noteq> ''msg'') (map fst (enumerate_obj attrValidation)))"

definition getValidators :: "env \<Rightarrow> subject \<Rightarrow> jsval \<Rightarrow> descriptor list" where
  "getValidators E model attr =
     (let attrValidationSet =
            (case validation_of model of
               None \<Rightarrow> DeclObj []
             | Some rules \<Rightarrow>
                 (case map_of rules (to_str E attr) of
                    None \<Rightarrow>
                      (case inherited (to_str E attr) of
                         Some (Native n) \<Rightarrow> DeclNative n
                       | _ \<Rightarrow> DeclObj [])
                  | Some d \<Rightarrow> if d = DeclStr [] then DeclObj [] else d))
      in case attrValidationSet of
           DeclFn f \<Rightarrow> descriptors_of [(''fn'', Fun f)]
         | DeclNative n \<Rightarrow> descriptors_of [(''fn'', Native n)]
         | DeclStr name \<Rightarrow> descriptors_of [(''fn'', Str name)]
         | DeclObj attrValidation \<Rightarrow> descriptors_of attrValidation
         | DeclArr attrValidations \<Rightarrow> concat (map descriptors_of attrValidations))"

text \<open>The state of a deferred object: resolved, rejected with a value, or not
  settled.\<close>

datatype promise_state = Resolved | Rejected jsval | Unsettled

text \<open>What is passed as \<open>masterDeferred\<close>: a deferred object or (in \<open>isValid\<close>) the
  entity, which has no \<open>resolve\<close>, \<open>reject\<close> or \<open>promise\<close> method.\<close>

datatype handle = DeferredObj | EntityObj

text \<open>What happens for one attribute, in order: a validator is invoked; its result
  handle is resolved; it is rejected with the validator's message; the validator
  raised.\<close>

datatype event =
    Invoked descriptor
  | Passed descriptor
  | Failed descriptor jsval
  | Faulted descriptor

text \<open>\<open>invokeValidator\<close>, with the validators still queued, gives the events and the
  state in which the chain leaves the master deferred.\<close>

fun invokeValidator ::
  "env \<Rightarrow> subject \<Rightarrow> jsval \<Rightarrow> jsval \<Rightarrow> jsval \<Rightarrow> descriptor \<Rightarrow> descriptor list
     \<Rightarrow> event list \<times> promise_state" where
  "invokeValidator E model attr value computed validator validators =
     (case call_validator E validator value attr model computed of
        Resolves \<Rightarrow>
          (case validators of
             [] \<Rightarrow> ([Invoked validator, Passed validator], Resolved)
           | nextValidation # rest \<Rightarrow>
               (case invokeValidator E model attr value computed nextValidation rest of
                  (evs, st) \<Rightarrow> (Invoked validator # Passed validator # evs, st)))
      | Rejects errorMessage \<Rightarrow>
          ([Invoked validator, Failed validator errorMessage], Rejected (msg validator))
      | Throws \<Rightarrow> ([Invoked validator, Faulted validator], Rejected (msg validator))
      | Pending \<Rightarrow> ([Invoked validator], Unsettled))"

declare invokeValidator.simps [simp del]

text \<open>Settling the master deferred and returning its promise. On an entity in the
  place of the deferred, \<open>resolve\<close>, \<open>reject\<close> and \<open>promise\<close> are all undefined, so
  every path ends in a TypeError.\<close>

definition settle :: "handle \<Rightarrow> 'a \<Rightarrow> error + 'a" where
  "settle masterDeferred r =
     (case masterDeferred of DeferredObj \<Rightarrow> Inr r | EntityObj \<Rightarrow> Inl TypeError)"

definition validateAttr ::
  "env \<Rightarrow> handle \<Rightarrow> subject \<Rightarrow> jsval \<Rightarrow> jsval \<Rightarrow> jsval
     \<Rightarrow> error + (event list \<times> promise_state)" where
  "validateAttr E masterDeferred model attr value computed =
     (case getValidators E model attr of
        [] \<Rightarrow> settle masterDeferred ([], Resolved)
      | validator # validators \<Rightarrow>
          settle masterDeferred
            (invokeValidator E model attr value computed validator validators))"

text \<open>The outcome of a run over the entity: the run settles with the map of invalid
  attributes and the flag, or it never settles.\<close>

datatype outcome = Settled "(string \<times> jsval) list" bool | Stalled

type_synonym run = "(string \<times> event list) list \<times> outcome"

definition chain_done :: "string \<Rightarrow> event list \<Rightarrow> error + run \<Rightarrow> error + run" where
  "chain_done attr evs r =
     (case r of Inl e \<Rightarrow> Inl e | Inr (trace, out) \<Rightarrow> Inr ((attr, evs) # trace, out))"

fun invokeModel ::
  "env \<Rightarrow> entity \<Rightarrow> jsval \<Rightarrow> (string \<times> jsval) \<Rightarrow> (string \<times> jsval) list
     \<Rightarrow> (string \<times> jsval) list \<Rightarrow> bool \<Rightarrow> error + run" where
  "invokeModel E model computed pair pairs invalidAttrs isValid =
     (case validateAttr E DeferredObj (Entity model) (Str (fst pair)) (snd pair) computed of
        Inl e \<Rightarrow> Inl e
      | Inr (evs, Resolved) \<Rightarrow>
          (case pairs of
             [] \<Rightarrow> Inr ([(fst pair, evs)], Settled invalidAttrs isValid)
           | nextPair # rest \<Rightarrow>
               chain_done (fst pair) evs
                 (invokeModel E model computed nextPair rest invalidAttrs isValid))
      | Inr (evs, Rejected errorMessage) \<Rightarrow>
          (case pairs of
             [] \<Rightarrow> Inr ([(fst pair, evs)],
                      Settled (assign invalidAttrs (fst pair) errorMessage) False)
           | nextPair # rest \<Rightarrow>
               chain_done (fst pair) evs
                 (invokeModel E model computed nextPair rest
                    (assign invalidAttrs (fst pair) errorMessage) False))
      | Inr (evs, Unsettled) \<Rightarrow> Inr ([(fst pair, evs)], Stalled))"

declare invokeModel.simps [simp del]

text \<open>\<open>validateModel\<close>: the first pair is taken from the queue and read without a
  check, which raises when the queue is empty.\<close>

definition validateModel :: "env \<Rightarrow> entity \<Rightarrow> (string \<times> jsval) list \<Rightarrow> error + run" where
  "validateModel E model attrs =
     (case flatten (Obj attrs) [] [] of
        [] \<Rightarrow> Inl TypeError
      | pair # pairs \<Rightarrow> invokeModel E model (Obj attrs) pair pairs [] True)"

section \<open>The operations mixed into an entity\<close>

record options =
  forceUpdate :: bool
  selector :: string

text \<open>The options of one call, each of which may be absent.\<close>

record set_options =
  set_forceUpdate :: "bool option"
  set_selector :: "string option"

definition merge_options :: "options \<Rightarrow> set_options \<Rightarrow> options" where
  "merge_options opts setOptions =
     \<lparr>forceUpdate = (case set_forceUpdate setOptions of Some b \<Rightarrow> b | None \<Rightarrow> forceUpdate opts),
      selector = (case set_selector setOptions of Some x \<Rightarrow> x | None \<Rightarrow> selector opts)\<rparr>"

text \<open>The calls of \<open>opt.valid(view, attr, selector)\<close> and
  \<open>opt.invalid(view, attr, error, selector)\<close>, and the deferred
  \<open>model.trigger\<close> notifications.\<close>

datatype callback = Valid string string | Invalid string jsval string

datatype notification =
    Validated bool "(string \<times> jsval) list"
  | ValidatedValid "(string \<times> jsval) list"
  | ValidatedInvalid "(string \<times> jsval) list"

record report =
  entity_after :: entity
  callbacks :: "callback list"
  notifications :: "notification list"
  promise :: promise_state
  run_of :: run

definition preValidate ::
  "env \<Rightarrow> entity \<Rightarrow> jsval \<Rightarrow> jsval \<Rightarrow> error + (event list \<times> promise_state)" where
  "preValidate E this attr value =
     validateAttr E DeferredObj (Entity this) attr value (Obj (js_extend [] (attributes this)))"

text \<open>\<open>isValid\<close> with a string, with an array of strings, and with an option that is
  neither (the option \<open>true\<close>, which starts a run first, is left out). It calls
  \<open>validateAttr(this, option, flattened[option], attributes)\<close>: the entity is bound to
  \<open>masterDeferred\<close>, the path to \<open>model\<close>, the value to \<open>attr\<close>, the attributes to
  \<open>value\<close>, and \<open>computed\<close> is undefined. A promise is an object, so its negation is
  false.\<close>

datatype isValid_option = PathOption string | ListOption "string list" | OtherOption

fun isValid_reduce ::
  "env \<Rightarrow> entity \<Rightarrow> (string \<times> jsval) list \<Rightarrow> string list \<Rightarrow> bool \<Rightarrow> error + bool" where
  "isValid_reduce E this flattened [] memo = Inr memo"
| "isValid_reduce E this flattened (attr # rest) memo =
     (if memo
      then (case validateAttr E EntityObj (PathString attr) (property flattened attr)
                   (Obj (js_extend [] (attributes this))) Undefined of
              Inl e \<Rightarrow> Inl e
            | Inr p \<Rightarrow> isValid_reduce E this flattened rest False)
      else isValid_reduce E this flattened rest memo)"

definition isValid :: "env \<Rightarrow> entity \<Rightarrow> isValid_option \<Rightarrow> error + jsval" where
  "isValid E this option =
     (let flattened = flatten (Obj (attributes this)) [] []
      in case option of
           PathOption path \<Rightarrow>
             (case validateAttr E EntityObj (PathString path) (property flattened path)
                     (Obj (js_extend [] (attributes this))) Undefined of
                Inl e \<Rightarrow> Inl e
              | Inr p \<Rightarrow> Inr (Bool False))
         | ListOption paths \<Rightarrow>
             (case isValid_reduce E this flattened paths True of
                Inl e \<Rightarrow> Inl e
              | Inr b \<Rightarrow> Inr (Bool b))
         | OtherOption \<Rightarrow>
             Inr (case validation this of
                    None \<Rightarrow> Bool True
                  | Some rules \<Rightarrow>
                      (case isValid_flag this of None \<Rightarrow> Undefined | Some b \<Rightarrow> Bool b)))"

text \<open>\<open>validate\<close>. Its deferred is resolved or rejected only when the function given
  to \<open>then\<close> does not return early.\<close>

definition validate ::
  "env \<Rightarrow> options \<Rightarrow> entity \<Rightarrow> (string \<times> jsval) list option \<Rightarrow> set_options
     \<Rightarrow> error + report" where
  "validate E opts model attrs setOptions =
     (let validateAll = (attrs = None);
          opt = merge_options opts setOptions;
          validatedAttrs = getValidatedAttrs model;
          allAttrs = js_extend (js_extend (js_extend [] validatedAttrs) (attributes model))
                       (case attrs of None \<Rightarrow> [] | Some a \<Rightarrow> a);
          changedAttrs = flatten (Obj (case attrs of None \<Rightarrow> allAttrs | Some a \<Rightarrow> a)) [] []
      in case validateModel E model allAttrs of
           Inl e \<Rightarrow> Inl e
         | Inr (trace, Stalled) \<Rightarrow>
             Inr \<lparr>entity_after = model, callbacks = [], notifications = [],
                  promise = Unsettled, run_of = (trace, Stalled)\<rparr>
         | Inr (trace, Settled invalidAttrs ok) \<Rightarrow>
             Inr \<lparr>entity_after = model\<lparr>isValid_flag := Some ok\<rparr>,
                  callbacks =
                    map (\<lambda>kv. Valid (fst kv) (selector opt))
                      (filter (\<lambda>kv. \<not> has_key invalidAttrs (fst kv)) validatedAttrs)
                    @ map (\<lambda>kv. Invalid (fst kv) (property invalidAttrs (fst kv)) (selector opt))
                        (filter (\<lambda>kv. has_key invalidAttrs (fst kv)
                                   \<and> (has_key changedAttrs (fst kv) \<or> validateAll))
                           validatedAttrs),
                  notifications =
                    [Validated ok invalidAttrs,
                     if ok then ValidatedValid invalidAttrs else ValidatedInvalid invalidAttrs],
                  promise =
                    (if \<not> forceUpdate opt
                        \<and> list_ex (\<lambda>k. has_key changedAttrs k) (map fst invalidAttrs)
                     then Unsettled
                     else if ok then Resolved else Rejected Undefined),
                  run_of = (trace, Settled invalidAttrs ok)\<rparr>)"

section \<open>The sequential reading of a chain\<close>

text \<open>
  The specification's account of one attribute's chain, to be compared with
  \<open>invokeValidator\<close>: the descriptors are taken in declaration order; each one that
  passes is invoked and settles before the next is invoked; the first one that does
  not pass is invoked and nothing after it is.
\<close>

definition passes ::
  "env \<Rightarrow> subject \<Rightarrow> jsval \<Rightarrow> jsval \<Rightarrow> jsval \<Rightarrow> descriptor \<Rightarrow> bool" where
  "passes E model attr value computed d =
     (call_validator E d value attr model computed = Resolves)"

definition settlement_events ::
  "env \<Rightarrow> subject \<Rightarrow> jsval \<Rightarrow> jsval \<Rightarrow> jsval \<Rightarrow> descriptor \<Rightarrow> event list" where
  "settlement_events E model attr value computed d =
     (case call_validator E d value attr model computed of
        Resolves \<Rightarrow> [Passed d]
      | Rejects errorMessage \<Rightarrow> [Failed d errorMessage]
      | Throws \<Rightarrow> [Faulted d]
      | Pending \<Rightarrow> [])"

definition sequential_log ::
  "env \<Rightarrow> subject \<Rightarrow> jsval \<Rightarrow> jsval \<Rightarrow> jsval \<Rightarrow> descriptor list \<Rightarrow> event list" where
  "sequential_log E model attr value computed ds =
     concat (map (\<lambda>d. [Invoked d, Passed d])
               (takeWhile (passes E model attr value computed) ds))
     @ (case dropWhile (passes E model attr value computed) ds of
          [] \<Rightarrow> []
        | d # rest \<Rightarrow> Invoked d # settlement_events E model attr value computed d)"

definition chain_state ::
  "env \<Rightarrow> subject \<Rightarrow> jsval \<Rightarrow> jsval \<Rightarrow> jsval \<Rightarrow> descriptor list \<Rightarrow> promise_state" where
  "chain_state E model attr value computed ds =
     (case dropWhile (passes E model attr value computed) ds of
        [] \<Rightarrow> Resolved
      | d # rest \<Rightarrow>
          (case call_validator E d value attr model computed of
             Pending \<Rightarrow> Unsettled
           | _ \<Rightarrow> Rejected (msg d)))"

text \<open>The descriptors invoked, in the order of their invocation.\<close>

fun invoked :: "event list \<Rightarrow> descriptor list" where
  "invoked [] = []"
| "invoked (Invoked d # evs) = d # invoked evs"
| "invoked (e # evs) = invoked evs"

text \<open>The state in which the chain of one flattened pair leaves its deferred, and
  the events of that chain.\<close>

definition pair_state :: "env \<Rightarrow> entity \<Rightarrow> jsval \<Rightarrow> string \<times> jsval \<Rightarrow> promise_state" where
  "pair_state E model computed pair =
     chain_state E (Entity model) (Str (fst pair)) (snd pair) computed
       (getValidators E (Entity model) (Str (fst pair)))"

definition pair_log :: "env \<Rightarrow> entity \<Rightarrow> jsval \<Rightarrow> string \<times> jsval \<Rightarrow> event list" where
  "pair_log E model computed pair =
     sequential_log E (Entity model) (Str (fst pair)) (snd pair) computed
       (getValidators E (Entity model) (Str (fst pair)))"

definition is_rejected :: "promise_state \<Rightarrow> bool" where
  "is_rejected st = (case st of Rejected m \<Rightarrow> True | _ \<Rightarrow> False)"

text \<open>The map of invalid attributes after one more settled chain.\<close>

definition record_failure ::
  "env \<Rightarrow> entity \<Rightarrow> jsval \<Rightarrow> string \<times> jsval \<Rightarrow> (string \<times> jsval) list
     \<Rightarrow> (string \<times> jsval) list" where
  "record_failure E model computed pair invalidAttrs =
     (case pair_state E model computed pair of
        Rejected errorMessage \<Rightarrow> assign invalidAttrs (fst pair) errorMessage
      | _ \<Rightarrow> invalidAttrs)"

text \<open>An environment whose user-supplied functions do not depend on the \<open>_isValid\<close>
  field of the entity they are given.\<close>

definition flag_blind :: "env \<Rightarrow> bool" where
  "flag_blind E =
     (\<forall>f m b x a c.
        validator_fns E f (Entity (m\<lparr>isValid_flag := b\<rparr>)) x a c
          = validator_fns E f (Entity m) x a c
        \<and> predicate_fns E f (Entity (m\<lparr>isValid_flag := b\<rparr>)) x a c
          = predicate_fns E f (Entity m) x a c)"


section \<open>Example inputs\<close>

text \<open>An environment in which no pattern matches, no string is a number and the only
  user-supplied validator never settles; the label formatter is the default one.\<close>

definition example_env :: env where
  "example_env =
     \<lparr>re_test = (\<lambda>r s. Some False),
      str_num = (\<lambda>s. None),
      host_str = (\<lambda>v. ''[host]''),
      validator_fns = (\<lambda>f model value attr computed. Pending),
      predicate_fns = (\<lambda>f model value attr computed. Some (Bool False)),
      labelFormatter = LF_sentenceCase\<rparr>"

definition defaultOptions :: options where
  "defaultOptions = \<lparr>forceUpdate = False, selector = ''name''\<rparr>"

definition no_set_options :: set_options where
  "no_set_options = \<lparr>set_forceUpdate = None, set_selector = None\<rparr>"

text \<open>An entity with no attributes and no rules.\<close>

definition empty_model :: entity where
  "empty_model =
     \<lparr>attributes = [], validation = None, labels = None, members = [], isValid_flag = None\<rparr>"

text \<open>The scenario of the specification: \<open>{ age: { required: true, min: 18 } }\<close> with
  \<open>age: 15\<close>.\<close>

definition person_model :: entity where
  "person_model =
     \<lparr>attributes = [(''age'', Num 15)],
      validation = Some [(''age'', DeclObj [(''required'', Bool True), (''min'', Num 18)])],
      labels = None, members = [], isValid_flag = None\<rparr>"

definition required_d :: descriptor where
  "required_d = \<lparr>fn = Builtin K_required, val = Bool True, msg = Undefined\<rparr>"

definition min_d :: descriptor where
  "min_d = \<lparr>fn = Builtin K_min, val = Num 18, msg = Undefined\<rparr>"

text \<open>An entity whose first attribute has a user-supplied validator (one that never
  settles in \<open>example_env\<close>).\<close>

definition stalling_model :: entity where
  "stalling_model =
     \<lparr>attributes = [(''a'', Num 1), (''b'', Num 2)],
      validation = Some [(''a'', DeclFn 0)],
      labels = None, members = [], isValid_flag = None\<rparr>"

text \<open>A rule set with a validator kind that is not registered, and a custom
  message.\<close>

definition misdeclared_model :: entity where
  "misdeclared_model =
     \<lparr>attributes = [(''name'', Str ''x'')],
      validation = Some [(''name'', DeclObj [(''required'', Bool True), (''unique'', Num 1),
                                            (''minLength'', Num 3), (''msg'', Str ''bad name'')])],
      labels = None, members = [], isValid_flag = None\<rparr>"

text \<open>An entity with two failing attributes and one without rules.\<close>

definition signup_model :: entity where
  "signup_model =
     \<lparr>attributes = [(''name'', Str []), (''age'', Num 15), (''city'', Str ''Oslo'')],
      validation = Some [(''name'', DeclObj [(''required'', Bool True)]),
                         (''age'', DeclObj [(''required'', Bool True), (''min'', Num 18)])],
      labels = None, members = [], isValid_flag = None\<rparr>"

definition name_required_d :: descriptor where
  "name_required_d = \<lparr>fn = Builtin K_required, val = Bool True, msg = Str ''bad name''\<rparr>"

definition name_unique_d :: descriptor where
  "name_unique_d = \<lparr>fn = NotCallable, val = Num 1, msg = Str ''bad name''\<rparr>"

definition name_minLength_d :: descriptor where
  "name_minLength_d = \<lparr>fn = Builtin K_minLength, val = Num 3, msg = Str ''bad name''\<rparr>"

definition custom_d :: descriptor where
  "custom_d = \<lparr>fn = Builtin K_fn, val = Fun 0, msg = Undefined\<rparr>"

text \<open>The example of the specification: \<open>{ required: false, pattern: 'email' }\<close> with
  the value \<open>''\<close>.\<close>

definition email_model :: entity where
  "email_model =
     \<lparr>attributes = [(''email'', Str [])],
      validation = Some [(''email'', DeclObj [(''required'', Bool False),
                                             (''pattern'', Str ''email'')])],
      labels = None, members = [], isValid_flag = None\<rparr>"

definition email_required_d :: descriptor where
  "email_required_d = \<lparr>fn = Builtin K_required, val = Bool False, msg = Undefined\<rparr>"

definition email_pattern_d :: descriptor where
  "email_pattern_d = \<lparr>fn = Builtin K_pattern, val = Str ''email'', msg = Undefined\<rparr>"

text \<open>An entity with a required field that has no value, bound with \<open>forceUpdate\<close>
  set.\<close>

definition required_model :: entity where
  "required_model =
     \<lparr>attributes = [],
      validation = Some [(''name'', DeclObj [(''required'', Bool True)])],
      labels = None, members = [], isValid_flag = None\<rparr>"

definition force_options :: options where
  "force_options = \<lparr>forceUpdate = True, selector = ''name''\<rparr>"


text \<open>An environment whose user-supplied validator reads the \<open>_isValid\<close> field of the
  entity it is given: it resolves while the field is undefined and rejects once it is
  set. The entity declares that validator for its only attribute.\<close>

definition flag_env :: env where
  "flag_env =
     \<lparr>re_test = (\<lambda>r s. Some False),
      str_num = (\<lambda>s. None),
      host_str = (\<lambda>v. ''[host]''),
      validator_fns =
        (\<lambda>f model value attr computed.
           case model of
             Entity m \<Rightarrow> (if isValid_flag m = None then Resolves else Rejects (Str ''seen''))
           | PathString s \<Rightarrow> Throws),
      predicate_fns = (\<lambda>f model value attr computed. Some (Bool False)),
      labelFormatter = LF_sentenceCase\<rparr>"

definition flag_model :: entity where
  "flag_model =
     \<lparr>attributes = [(''name'', Str ''x'')],
      validation = Some [(''name'', DeclFn 0)],
      labels = None, members = [], isValid_flag = None\<rparr>"




section \<open>The run over an entity without attributes\<close>

lemma flatten_no_entries: "flatten (Obj []) into prefix = into"
  by (subst flatten.simps)
     (simp add: entries_of_def each_items_def enumerate_obj_def js_extend_def)

lemma getValidatedAttrs_no_rules:
  "validation model = None \<or> validation model = Some [] \<Longrightarrow> getValidatedAttrs model = []"
  by (auto simp: getValidatedAttrs_def)

text \<open>
  Claim C10. When the attribute set handed to \<open>validateModel\<close> flattens to the empty
  map, the run does not settle as valid: \<open>validateModel\<close> raises a TypeError, because the
  first pair is taken from the empty queue and read. Hence \<open>validate()\<close> on an entity
  with no attributes and no rules raises as well.
\<close>

theorem validateModel_empty_raises:
  "(flatten (Obj attrs) [] [] = [] \<longrightarrow> validateModel E model attrs = Inl TypeError)
   \<and> (attributes model = [] \<and> (validation model = None \<or> validation model = Some [])
        \<longrightarrow> validate E opts model None setOptions = Inl TypeError)"
proof (intro conjI impI)
  assume "flatten (Obj attrs) [] [] = []"
  then show "validateModel E model attrs = Inl TypeError"
    by (simp add: validateModel_def)
next
  assume a: "attributes model = [] \<and> (validation model = None \<or> validation model = Some [])"
  then have v: "getValidatedAttrs model = []"
    by (simp add: getValidatedAttrs_no_rules)
  have "validateModel E model [] = Inl TypeError"
    by (simp add: validateModel_def flatten_no_entries)
  with a v show "validate E opts model None setOptions = Inl TypeError"
    by (simp add: validate_def js_extend_def)
qed

theorem validateModel_empty_raises_witness:
  "flatten (Obj []) [] [] = []
   \<and> validateModel example_env empty_model [] = Inl TypeError
   \<and> validate example_env defaultOptions empty_model None no_set_options = Inl TypeError"
proof -
  have f: "flatten (Obj []) [] [] = []"
    by (rule flatten_no_entries)
  have a: "attributes empty_model = []
      \<and> (validation empty_model = None \<or> validation empty_model = Some [])"
    by (simp add: empty_model_def)
  from validateModel_empty_raises
         [of "[]" example_env empty_model defaultOptions no_set_options] f a
  show ?thesis by blast
qed

section \<open>The chain of one attribute\<close>

lemma sequential_log_pass:
  "passes E model attr value computed d \<Longrightarrow>
   sequential_log E model attr value computed (d # ds) =
     Invoked d # Passed d # sequential_log E model attr value computed ds"
  by (simp add: sequential_log_def)

lemma sequential_log_stop:
  "\<not> passes E model attr value computed d \<Longrightarrow>
   sequential_log E model attr value computed (d # ds) =
     Invoked d # settlement_events E model attr value computed d"
  by (simp add: sequential_log_def)

lemma chain_state_pass:
  "passes E model attr value computed d \<Longrightarrow>
   chain_state E model attr value computed (d # ds) = chain_state E model attr value computed ds"
  by (simp add: chain_state_def)

lemma invokeValidator_sequential:
  "invokeValidator E model attr value computed d ds =
     (sequential_log E model attr value computed (d # ds),
      chain_state E model attr value computed (d # ds))"
proof (induction ds arbitrary: d)
  case Nil
  show ?case
    by (subst invokeValidator.simps)
       (simp add: sequential_log_def chain_state_def passes_def settlement_events_def
             split: behaviour.splits)
next
  case (Cons n rest)
  show ?case
  proof (cases "passes E model attr value computed d")
    case True
    then have c: "call_validator E d value attr model computed = Resolves"
      by (simp add: passes_def)
    show ?thesis
      by (subst invokeValidator.simps)
         (simp add: c Cons.IH sequential_log_pass [OF True] chain_state_pass [OF True])
  next
    case False
    then show ?thesis
      by (subst invokeValidator.simps)
         (simp add: sequential_log_def chain_state_def passes_def settlement_events_def
               split: behaviour.splits)
  qed
qed

lemma validateAttr_deferred:
  "validateAttr E DeferredObj model attr value computed =
     Inr (sequential_log E model attr value computed (getValidators E model attr),
          chain_state E model attr value computed (getValidators E model attr))"
  by (cases "getValidators E model attr")
     (simp_all add: validateAttr_def settle_def invokeValidator_sequential
        sequential_log_def chain_state_def)

lemma invoked_sequential_log:
  "invoked (sequential_log E model attr value computed ds) =
     take (Suc (length (takeWhile (passes E model attr value computed) ds))) ds"
proof (induction ds)
  case Nil
  show ?case by (simp add: sequential_log_def)
next
  case (Cons d ds)
  show ?case
  proof (cases "passes E model attr value computed d")
    case True
    with Cons show ?thesis by (simp add: sequential_log_pass)
  next
    case False
    then show ?thesis
      by (simp add: sequential_log_stop settlement_events_def split: behaviour.splits)
  qed
qed

lemma sequential_log_nth_pass:
  "k < length (takeWhile (passes E model attr value computed) ds) \<Longrightarrow>
   sequential_log E model attr value computed ds ! (2 * k) = Invoked (ds ! k)
   \<and> sequential_log E model attr value computed ds ! (2 * k + 1) = Passed (ds ! k)"
proof (induction ds arbitrary: k)
  case Nil
  then show ?case by simp
next
  case (Cons d ds)
  from Cons.prems have p: "passes E model attr value computed d"
    by (cases "passes E model attr value computed d") simp_all
  show ?case
  proof (cases k)
    case 0
    then show ?thesis by (simp add: sequential_log_pass [OF p])
  next
    case (Suc j)
    with Cons.prems p have "j < length (takeWhile (passes E model attr value computed) ds)"
      by simp
    from Cons.IH [OF this] Suc show ?thesis
      by (simp add: sequential_log_pass [OF p])
  qed
qed

lemma sequential_log_nth_stop:
  "length (takeWhile (passes E model attr value computed) ds) = n \<Longrightarrow> n < length ds \<Longrightarrow>
   sequential_log E model attr value computed ds ! (2 * n) = Invoked (ds ! n)
   \<and> drop (2 * n + 1) (sequential_log E model attr value computed ds)
       = settlement_events E model attr value computed (ds ! n)
   \<and> \<not> passes E model attr value computed (ds ! n)"
proof (induction ds arbitrary: n)
  case Nil
  then show ?case by simp
next
  case (Cons d ds)
  show ?case
  proof (cases "passes E model attr value computed d")
    case True
    with Cons.prems obtain j where j: "n = Suc j"
      "length (takeWhile (passes E model attr value computed) ds) = j" "j < length ds"
      by (cases n) auto
    from Cons.IH [OF j(2,3)] j(1) show ?thesis
      by (simp add: sequential_log_pass [OF True])
  next
    case False
    with Cons.prems have "n = 0" by simp
    with False show ?thesis by (simp add: sequential_log_stop)
  qed
qed

lemma update_entry_keys: "map fst (update_entry k v kvs) = map fst kvs"
proof (induction kvs)
  case Nil
  show ?case by simp
next
  case (Cons kv kvs)
  obtain a b where kv: "kv = (a, b)" by (cases kv)
  from Cons.IH show ?case by (simp add: kv)
qed

lemma update_entry_map_of:
  "k \<in> fst ` set kvs \<Longrightarrow> map_of (update_entry k v kvs) = (map_of kvs)(k \<mapsto> v)"
proof (induction kvs)
  case Nil
  then show ?case by simp
next
  case (Cons kv kvs)
  obtain a b where kv: "kv = (a, b)" by (cases kv)
  show ?case
  proof (cases "a = k")
    case True
    then show ?thesis by (simp add: kv fun_eq_iff)
  next
    case False
    with Cons.prems kv have "k \<in> fst ` set kvs" by auto
    from Cons.IH [OF this] False show ?thesis by (simp add: kv fun_eq_iff)
  qed
qed

lemma insert_indexed_distinct:
  "k \<notin> fst ` set kvs \<Longrightarrow> distinct (map fst kvs) \<Longrightarrow>
   distinct (map fst (insert_indexed i k v kvs))"
proof (induction kvs)
  case Nil
  show ?case by simp
next
  case (Cons kv kvs)
  obtain a b where kv: "kv = (a, b)" by (cases kv)
  from Cons.prems kv have k: "k \<notin> fst ` set kvs" "a \<noteq> k" "a \<notin> fst ` set kvs"
    "distinct (map fst kvs)" by auto
  have "a \<notin> fst ` set (insert_indexed i k v kvs)"
    using k by (simp add: insert_indexed_set)
  with Cons.IH [OF k(1,4)] k show ?case
    by (cases "array_index a") (simp_all add: kv)
qed

lemma insert_indexed_map_of:
  "k \<notin> fst ` set kvs \<Longrightarrow> map_of (insert_indexed i k v kvs) = (map_of kvs)(k \<mapsto> v)"
proof (induction kvs)
  case Nil
  show ?case by simp
next
  case (Cons kv kvs)
  obtain a b where kv: "kv = (a, b)" by (cases kv)
  from Cons.prems kv have k: "k \<notin> fst ` set kvs" "a \<noteq> k" by auto
  from Cons.IH [OF k(1)] k(2) show ?case
    by (cases "array_index a") (simp_all add: kv fun_eq_iff)
qed

lemma assign_keys: "fst ` set (assign kvs k v) = insert k (fst ` set kvs)"
proof (cases "has_key kvs k")
  case True
  have "fst ` set (update_entry k v kvs) = fst ` set kvs"
    using update_entry_keys [of k v kvs] by (metis set_map)
  with True show ?thesis by (auto simp: assign_def has_key_def)
next
  case False
  then show ?thesis
    by (cases "array_index k") (simp_all add: assign_def insert_indexed_set)
qed

lemma assign_distinct: "distinct (map fst kvs) \<Longrightarrow> distinct (map fst (assign kvs k v))"
proof (cases "has_key kvs k")
  case True
  assume "distinct (map fst kvs)"
  with True show ?thesis by (simp add: assign_def update_entry_keys)
next
  case False
  assume d: "distinct (map fst kvs)"
  from False have k: "k \<notin> fst ` set kvs" by (simp add: has_key_def)
  show ?thesis
    using False d k by (cases "array_index k") (simp_all add: assign_def insert_indexed_distinct)
qed

lemma assign_not_empty: "assign kvs k v \<noteq> []"
  using assign_keys [of kvs k v] by auto

lemma map_of_assign: "map_of (assign kvs k v) = (map_of kvs)(k \<mapsto> v)"
proof (cases "has_key kvs k")
  case True
  then show ?thesis by (simp add: assign_def has_key_def update_entry_map_of)
next
  case False
  then have k: "k \<notin> fst ` set kvs" by (simp add: has_key_def)
  then have "map_of kvs k = None" by (simp add: map_of_eq_None_iff)
  then have "map_of (kvs @ [(k, v)]) = (map_of kvs)(k \<mapsto> v)"
    by (auto simp: fun_eq_iff map_add_def split: option.splits)
  with False k show ?thesis
    by (cases "array_index k") (simp_all add: assign_def insert_indexed_map_of)
qed

lemma fold_invariant:
  "I a \<Longrightarrow> (\<And>x acc. x \<in> set xs \<Longrightarrow> I acc \<Longrightarrow> I (f x acc)) \<Longrightarrow> I (fold f xs a)"
  by (induction xs arbitrary: a) auto

lemma flatten_distinct:
  "distinct (map fst into) \<Longrightarrow> distinct (map fst (flatten obj into prefix))"
proof (induction obj into prefix rule: flatten.induct)
  case (1 obj into prefix)
  show ?case
    by (subst flatten.simps, rule fold_invariant [where I = "\<lambda>acc. distinct (map fst acc)"])
       (use 1 in \<open>auto simp: assign_distinct\<close>)
qed

lemma validateAttr_pair:
  "validateAttr E DeferredObj (Entity model) (Str (fst pair)) (snd pair) computed =
     Inr (pair_log E model computed pair, pair_state E model computed pair)"
  by (simp add: validateAttr_deferred pair_log_def pair_state_def)

lemma record_failure_rejected:
  "pair_state E model computed p = Rejected m \<Longrightarrow>
   record_failure E model computed p inva = assign inva (fst p) m"
  by (simp add: record_failure_def)

lemma record_failure_other:
  "\<not> is_rejected (pair_state E model computed p) \<Longrightarrow>
   record_failure E model computed p inva = inva"
  by (simp add: record_failure_def is_rejected_def split: promise_state.splits)

lemma invokeModel_all_settle:
  "\<forall>p \<in> set (pair # pairs). pair_state E model computed p \<noteq> Unsettled \<Longrightarrow>
   invokeModel E model computed pair pairs inva ok =
     Inr (map (\<lambda>p. (fst p, pair_log E model computed p)) (pair # pairs),
          Settled (fold (record_failure E model computed) (pair # pairs) inva)
            (ok \<and> (\<forall>p \<in> set (pair # pairs). \<not> is_rejected (pair_state E model computed p))))"
proof (induction pairs arbitrary: pair inva ok)
  case Nil
  show ?case
  proof (cases "pair_state E model computed pair")
    case Resolved
    then show ?thesis
      by (subst invokeModel.simps)
         (simp add: validateAttr_pair record_failure_other is_rejected_def)
  next
    case (Rejected m)
    then show ?thesis
      by (subst invokeModel.simps)
         (simp add: validateAttr_pair record_failure_rejected is_rejected_def)
  next
    case Unsettled
    with Nil show ?thesis by simp
  qed
next
  case (Cons n rest)
  from Cons.prems have r: "\<forall>p \<in> set (n # rest). pair_state E model computed p \<noteq> Unsettled"
    by simp
  note ih = Cons.IH [OF r]
  show ?case
  proof (cases "pair_state E model computed pair")
    case Resolved
    then show ?thesis
      by (subst invokeModel.simps)
         (simp add: validateAttr_pair ih chain_done_def record_failure_other is_rejected_def)
  next
    case (Rejected m)
    then show ?thesis
      by (subst invokeModel.simps)
         (simp add: validateAttr_pair ih chain_done_def record_failure_rejected is_rejected_def)
  next
    case Unsettled
    with Cons.prems show ?thesis by simp
  qed
qed

lemma record_failure_keys:
  "fst ` set (fold (record_failure E model computed) ps inva) =
     fst ` set inva \<union> fst ` {p \<in> set ps. is_rejected (pair_state E model computed p)}"
proof (induction ps arbitrary: inva)
  case Nil
  show ?case by simp
next
  case (Cons p ps)
  show ?case
  proof (cases "is_rejected (pair_state E model computed p)")
    case True
    then obtain m where m: "pair_state E model computed p = Rejected m"
      by (auto simp: is_rejected_def split: promise_state.splits)
    show ?thesis
      using True by (auto simp: Cons.IH record_failure_rejected [OF m] assign_keys)
  next
    case False
    then show ?thesis
      by (auto simp: Cons.IH record_failure_other)
  qed
qed

lemma record_failure_untouched:
  "k \<notin> fst ` set ps \<Longrightarrow>
   map_of (fold (record_failure E model computed) ps inva) k = map_of inva k"
proof (induction ps arbitrary: inva)
  case Nil
  show ?case by simp
next
  case (Cons p ps)
  then have k: "k \<notin> fst ` set ps" "fst p \<noteq> k" by auto
  show ?case
  proof (cases "is_rejected (pair_state E model computed p)")
    case True
    then obtain m where m: "pair_state E model computed p = Rejected m"
      by (auto simp: is_rejected_def split: promise_state.splits)
    show ?thesis
      using k by (simp add: Cons.IH record_failure_rejected [OF m] map_of_assign)
  next
    case False
    then show ?thesis
      using k by (simp add: Cons.IH record_failure_other)
  qed
qed

lemma record_failure_value:
  "distinct (map fst ps) \<Longrightarrow> p \<in> set ps \<Longrightarrow> pair_state E model computed p = Rejected m \<Longrightarrow>
   map_of (fold (record_failure E model computed) ps inva) (fst p) = Some m"
proof (induction ps arbitrary: inva)
  case Nil
  then show ?case by simp
next
  case (Cons q ps)
  show ?case
  proof (cases "p = q")
    case True
    with Cons.prems have "fst p \<notin> fst ` set ps" by auto
    then show ?thesis
      using True Cons.prems(3)
      by (simp add: record_failure_untouched record_failure_rejected map_of_assign)
  next
    case False
    with Cons.prems have "distinct (map fst ps)" "p \<in> set ps" by auto
    from Cons.IH [OF this Cons.prems(3)] show ?thesis by simp
  qed
qed

text \<open>
  Claim C4. The descriptors of an attribute are invoked strictly in declaration order:
  the log of the chain is the sequential log, in which every descriptor that passes is
  invoked and settles before the next one is invoked (the invocation of descriptor
  \<open>k + 1\<close> stands right after the settlement of descriptor \<open>k\<close>), and the first
  descriptor that does not pass is the last one invoked: the descriptors invoked are
  the passing prefix of the declaration and the descriptor after it, and nothing
  follows the settlement of that descriptor.
\<close>

theorem attribute_chain_sequential:
  "\<exists>evs st.
     validateAttr E DeferredObj model attr value computed = Inr (evs, st)
     \<and> evs = sequential_log E model attr value computed (getValidators E model attr)
     \<and> invoked evs =
         take (Suc (length (takeWhile (passes E model attr value computed)
                              (getValidators E model attr))))
           (getValidators E model attr)
     \<and> (\<forall>k < length (takeWhile (passes E model attr value computed)
                         (getValidators E model attr)).
           evs ! (2 * k) = Invoked (getValidators E model attr ! k)
           \<and> evs ! (2 * k + 1) = Passed (getValidators E model attr ! k))
     \<and> (\<forall>n. length (takeWhile (passes E model attr value computed)
                       (getValidators E model attr)) = n
              \<and> n < length (getValidators E model attr)
           \<longrightarrow> evs ! (2 * n) = Invoked (getValidators E model attr ! n)
               \<and> drop (2 * n + 1) evs
                   = settlement_events E model attr value computed
                       (getValidators E model attr ! n)
               \<and> \<not> passes E model attr value computed (getValidators E model attr ! n))"
proof -
  let ?ds = "getValidators E model attr"
  let ?log = "sequential_log E model attr value computed ?ds"
  let ?n = "length (takeWhile (passes E model attr value computed) ?ds)"
  have 1: "validateAttr E DeferredObj model attr value computed
             = Inr (?log, chain_state E model attr value computed ?ds)"
    by (rule validateAttr_deferred)
  have 2: "invoked ?log = take (Suc ?n) ?ds"
    by (rule invoked_sequential_log)
  have 3: "\<forall>k < ?n. ?log ! (2 * k) = Invoked (?ds ! k) \<and> ?log ! (2 * k + 1) = Passed (?ds ! k)"
    using sequential_log_nth_pass by blast
  have 4: "\<forall>n. ?n = n \<and> n < length ?ds
             \<longrightarrow> ?log ! (2 * n) = Invoked (?ds ! n)
                 \<and> drop (2 * n + 1) ?log = settlement_events E model attr value computed (?ds ! n)
                 \<and> \<not> passes E model attr value computed (?ds ! n)"
    using sequential_log_nth_stop by blast
  from 1 2 3 4 show ?thesis by blast
qed

theorem attribute_chain_sequential_witness:
  "validateAttr example_env DeferredObj (Entity person_model) (Str ''age'') (Num 15)
       (Obj [(''age'', Num 15)])
     = Inr ([Invoked required_d, Passed required_d, Invoked min_d,
             Failed min_d (Str ''Age must be greater than or equal to 18'')],
            Rejected Undefined)
   \<and> getValidators example_env (Entity person_model) (Str ''age'') = [required_d, min_d]
   \<and> invoked [Invoked required_d, Passed required_d, Invoked min_d,
               Failed min_d (Str ''Age must be greater than or equal to 18'')]
       = [required_d, min_d]"
proof -
  from attribute_chain_sequential
         [of example_env "Entity person_model" "Str ''age''" "Num 15" "Obj [(''age'', Num 15)]"]
  obtain evs st where
    r: "validateAttr example_env DeferredObj (Entity person_model) (Str ''age'') (Num 15)
          (Obj [(''age'', Num 15)]) = Inr (evs, st)"
    and i: "invoked evs =
         take (Suc (length (takeWhile (passes example_env (Entity person_model) (Str ''age'')
                 (Num 15) (Obj [(''age'', Num 15)]))
                 (getValidators example_env (Entity person_model) (Str ''age'')))))
           (getValidators example_env (Entity person_model) (Str ''age''))"
    by blast
  have g: "getValidators example_env (Entity person_model) (Str ''age'') = [required_d, min_d]"
    by code_simp
  have v: "validateAttr example_env DeferredObj (Entity person_model) (Str ''age'') (Num 15)
       (Obj [(''age'', Num 15)])
     = Inr ([Invoked required_d, Passed required_d, Invoked min_d,
             Failed min_d (Str ''Age must be greater than or equal to 18'')],
            Rejected Undefined)"
    by code_simp
  from r v have "evs = [Invoked required_d, Passed required_d, Invoked min_d,
             Failed min_d (Str ''Age must be greater than or equal to 18'')]" by simp
  with i g v show ?thesis by simp
qed

lemma invokeModel_no_exception:
  "\<exists>r. invokeModel E model computed pair pairs inva ok = Inr r"
proof (induction pairs arbitrary: pair inva ok)
  case Nil
  show ?case
    by (subst invokeModel.simps)
       (simp add: validateAttr_pair split: promise_state.splits)
next
  case (Cons n rest)
  show ?case
  proof (cases "pair_state E model computed pair")
    case Resolved
    from Cons.IH [of n inva ok] obtain r
      where "invokeModel E model computed n rest inva ok = Inr r" by blast
    with Resolved show ?thesis
      by (subst invokeModel.simps)
         (simp add: validateAttr_pair chain_done_def split: prod.splits)
  next
    case (Rejected m)
    from Cons.IH [of n "assign inva (fst pair) m" False] obtain r
      where "invokeModel E model computed n rest (assign inva (fst pair) m) False = Inr r"
      by blast
    with Rejected show ?thesis
      by (subst invokeModel.simps)
         (simp add: validateAttr_pair chain_done_def split: prod.splits)
  next
    case Unsettled
    then show ?thesis
      by (subst invokeModel.simps) (simp add: validateAttr_pair)
  qed
qed

lemma not_callable_throws:
  "fn d = NotCallable \<Longrightarrow> call_validator E d value attr model computed = Throws"
  by (simp add: call_validator_def)

text \<open>
  Claim C8. When the validator invoked for a descriptor raises before settling its
  result handle (in particular when the descriptor's kind has no registered
  validator, so that there is nothing to call), and the descriptors before it have
  passed, the chain of the attribute settles as a failure with that descriptor's
  configured message. No exception leaves \<open>validateAttr\<close>, and none leaves the run
  over the pairs of an entity.
\<close>

theorem validator_fault_is_caught:
  assumes ds: "getValidators E model attr = pre @ d # post"
    and passed: "\<forall>p \<in> set pre. call_validator E p value attr model computed = Resolves"
    and fault: "fn d = NotCallable \<or> call_validator E d value attr model computed = Throws"
  shows "validateAttr E DeferredObj model attr value computed =
           Inr (concat (map (\<lambda>p. [Invoked p, Passed p]) pre) @ [Invoked d, Faulted d],
                Rejected (msg d))
         \<and> (\<exists>r. invokeModel E this computed pair pairs invalidAttrs ok = Inr r)"
proof -
  from fault have t: "call_validator E d value attr model computed = Throws"
    by (auto simp: not_callable_throws)
  then have nd: "\<not> passes E model attr value computed d"
    by (simp add: passes_def)
  from passed have pp: "\<And>p. p \<in> set pre \<Longrightarrow> passes E model attr value computed p"
    by (simp add: passes_def)
  have tw: "takeWhile (passes E model attr value computed) (pre @ d # post) = pre"
    using pp nd by (simp add: takeWhile_append2)
  have dw: "dropWhile (passes E model attr value computed) (pre @ d # post) = d # post"
    using pp nd by (simp add: dropWhile_append2)
  have "validateAttr E DeferredObj model attr value computed =
          Inr (concat (map (\<lambda>p. [Invoked p, Passed p]) pre) @ [Invoked d, Faulted d],
               Rejected (msg d))"
    by (simp add: validateAttr_deferred ds sequential_log_def chain_state_def tw dw t
          settlement_events_def)
  then show ?thesis
    using invokeModel_no_exception by blast
qed

theorem validator_fault_is_caught_witness:
  "getValidators example_env (Entity misdeclared_model) (Str ''name'')
     = [name_required_d] @ name_unique_d # [name_minLength_d]
   \<and> call_validator example_env name_required_d (Str ''x'') (Str ''name'')
        (Entity misdeclared_model) (Obj [(''name'', Str ''x'')]) = Resolves
   \<and> fn name_unique_d = NotCallable
   \<and> validateAttr example_env DeferredObj (Entity misdeclared_model) (Str ''name'') (Str ''x'')
        (Obj [(''name'', Str ''x'')])
       = Inr ([Invoked name_required_d, Passed name_required_d,
               Invoked name_unique_d, Faulted name_unique_d],
              Rejected (Str ''bad name''))"
proof -
  have g: "getValidators example_env (Entity misdeclared_model) (Str ''name'')
     = [name_required_d] @ name_unique_d # [name_minLength_d]"
    by code_simp
  have c: "call_validator example_env name_required_d (Str ''x'') (Str ''name'')
        (Entity misdeclared_model) (Obj [(''name'', Str ''x'')]) = Resolves"
    by code_simp
  then have p: "\<forall>p \<in> set [name_required_d].
      call_validator example_env p (Str ''x'') (Str ''name'')
        (Entity misdeclared_model) (Obj [(''name'', Str ''x'')]) = Resolves"
    by simp
  have n: "fn name_unique_d = NotCallable"
    by (simp add: name_unique_d_def)
  then have f: "fn name_unique_d = NotCallable
      \<or> call_validator example_env name_unique_d (Str ''x'') (Str ''name'')
           (Entity misdeclared_model) (Obj [(''name'', Str ''x'')]) = Throws"
    by simp
  have m: "msg name_unique_d = Str ''bad name''"
    by (simp add: name_unique_d_def)
  from validator_fault_is_caught [OF g p f] g c n m show ?thesis by simp
qed

section \<open>The run over the attributes of an entity\<close>

text \<open>
  Claim C3, as amended. For every run over an attribute set whose flattened map is
  not empty and in which no chain is left unsettled, the run settles with the map of
  invalid attributes and the flag: the chain of every flattened attribute is run
  exactly once and to its end, in the order of the flattened map, whether or not
  earlier attributes failed; the map holds exactly the attributes whose chain was
  rejected, each with the value its chain was rejected with; and the flag is true
  exactly when the map is empty.
\<close>

theorem entity_run_complete:
  assumes ne: "flatten (Obj attrs) [] [] \<noteq> []"
    and settle: "\<forall>p \<in> set (flatten (Obj attrs) [] []).
                   pair_state E model (Obj attrs) p \<noteq> Unsettled"
  shows "\<exists>trace invalidAttrs ok.
     validateModel E model attrs = Inr (trace, Settled invalidAttrs ok)
     \<and> trace = map (\<lambda>p. (fst p, pair_log E model (Obj attrs) p)) (flatten (Obj attrs) [] [])
     \<and> distinct (map fst trace)
     \<and> fst ` set invalidAttrs =
         fst ` {p \<in> set (flatten (Obj attrs) [] []).
                  is_rejected (pair_state E model (Obj attrs) p)}
     \<and> (\<forall>p \<in> set (flatten (Obj attrs) [] []). \<forall>m.
           pair_state E model (Obj attrs) p = Rejected m
             \<longrightarrow> map_of invalidAttrs (fst p) = Some m)
     \<and> (ok \<longleftrightarrow> invalidAttrs = [])"
proof -
  let ?ps = "flatten (Obj attrs) [] []"
  let ?inv = "fold (record_failure E model (Obj attrs)) ?ps []"
  let ?ok = "\<forall>p \<in> set ?ps. \<not> is_rejected (pair_state E model (Obj attrs) p)"
  let ?trace = "map (\<lambda>p. (fst p, pair_log E model (Obj attrs) p)) ?ps"
  from ne obtain pair pairs where ps: "?ps = pair # pairs"
    by (cases ?ps) auto
  have d: "distinct (map fst ?ps)"
    by (rule flatten_distinct) simp
  from settle ps
  have "invokeModel E model (Obj attrs) pair pairs [] True = Inr (?trace, Settled ?inv ?ok)"
    by (simp add: invokeModel_all_settle)
  then have 1: "validateModel E model attrs = Inr (?trace, Settled ?inv ?ok)"
    by (simp add: validateModel_def ps)
  have 2: "distinct (map fst ?trace)"
    using d by (simp add: comp_def)
  have 3: "fst ` set ?inv = fst ` {p \<in> set ?ps. is_rejected (pair_state E model (Obj attrs) p)}"
    by (simp add: record_failure_keys)
  have 4: "\<forall>p \<in> set ?ps. \<forall>m. pair_state E model (Obj attrs) p = Rejected m
             \<longrightarrow> map_of ?inv (fst p) = Some m"
    using d by (simp add: record_failure_value)
  have 5: "?ok \<longleftrightarrow> ?inv = []"
  proof
    assume ?ok
    then have "fst ` set ?inv = {}" by (simp add: 3)
    then show "?inv = []" by simp
  next
    assume "?inv = []"
    with 3 have "{p \<in> set ?ps. is_rejected (pair_state E model (Obj attrs) p)} = {}"
      by simp
    then show ?ok by blast
  qed
  from 1 2 3 4 5 show ?thesis by blast
qed

theorem entity_run_complete_witness:
  "flatten (Obj (attributes signup_model)) [] []
     = [(''name'', Str []), (''age'', Num 15), (''city'', Str ''Oslo'')]
   \<and> map_sum id (map_prod (map fst) id)
        (validateModel example_env signup_model (attributes signup_model))
       = Inr ([''name'', ''age'', ''city''],
              Settled [(''name'', Undefined), (''age'', Undefined)] False)"
proof -
  have f: "flatten (Obj (attributes signup_model)) [] []
     = [(''name'', Str []), (''age'', Num 15), (''city'', Str ''Oslo'')]"
    by code_simp
  then have ne: "flatten (Obj (attributes signup_model)) [] [] \<noteq> []"
    by simp
  have s: "\<forall>p \<in> set (flatten (Obj (attributes signup_model)) [] []).
             pair_state example_env signup_model (Obj (attributes signup_model)) p \<noteq> Unsettled"
    by code_simp
  from entity_run_complete [OF ne s] obtain trace invalidAttrs ok where
    r: "validateModel example_env signup_model (attributes signup_model)
          = Inr (trace, Settled invalidAttrs ok)"
    by blast
  have v: "map_sum id (map_prod (map fst) id)
        (validateModel example_env signup_model (attributes signup_model))
       = Inr ([''name'', ''age'', ''city''],
              Settled [(''name'', Undefined), (''age'', Undefined)] False)"
    by code_simp
  from r v f show ?thesis by simp
qed

text \<open>As stated for every attribute set, claim C3 fails: over the empty attribute set
  the run raises instead of settling, and a validator that never settles its handle
  leaves the run unsettled, with the chains of the later attributes never started.\<close>

theorem entity_run_counterexample:
  "validateModel example_env empty_model (attributes empty_model) = Inl TypeError
   \<and> validateModel example_env stalling_model (attributes stalling_model)
       = Inr ([(''a'', [Invoked custom_d])], Stalled)"
  by code_simp

section \<open>Where the code departs from the specification\<close>

text \<open>
  Claim C1 says that an empty value under \<open>required: false\<close> passes whatever the other
  descriptors are. In the code the \<open>required\<close> validator only resolves its own result
  handle, and the chain goes on to the next descriptor: for the rules
  \<open>{ required: false, pattern: 'email' }\<close> and the value \<open>''\<close> the \<open>pattern\<close> validator
  is invoked and rejects, so \<open>preValidate\<close> settles as a failure and the run over the
  entity reports the attribute as invalid.
\<close>

theorem not_required_empty_value_fails:
  "preValidate example_env email_model (Str ''email'') (Str [])
     = Inr ([Invoked email_required_d, Passed email_required_d, Invoked email_pattern_d,
             Failed email_pattern_d (Str ''Email must be a valid email'')],
            Rejected Undefined)
   \<and> map_sum id snd (validateModel example_env email_model (attributes email_model))
       = Inr (Settled [(''email'', Undefined)] False)"
  by code_simp

text \<open>
  Claim C2 says that the map of invalid attributes holds the custom message or the
  parametrized default message. In the code the rejection handler of the chain passes
  on \<open>validator.msg\<close> and drops the message the validator rejected with: for the rules
  \<open>{ age: { required: true, min: 18 } }\<close> and \<open>age: 15\<close> the \<open>min\<close> validator rejects
  with \<open>Age must be greater than or equal to 18\<close>, and the map records \<open>undefined\<close>
  for \<open>age\<close>.
\<close>

theorem default_message_is_dropped:
  "validateModel example_env person_model (attributes person_model)
     = Inr ([(''age'', [Invoked required_d, Passed required_d, Invoked min_d,
                        Failed min_d (Str ''Age must be greater than or equal to 18'')])],
            Settled [(''age'', Undefined)] False)
   \<and> map_sum id run_of (validate example_env defaultOptions person_model None no_set_options)
       = Inr ([(''age'', [Invoked required_d, Passed required_d, Invoked min_d,
                          Failed min_d (Str ''Age must be greater than or equal to 18'')])],
              Settled [(''age'', Undefined)] False)"
  by code_simp

text \<open>
  Claim C5 says that with \<open>forceUpdate\<close> set, \<open>validate()\<close> on an entity with a failing
  required field fires the invalid callback and is accepted. In the code the callback
  is fired, and the deferred of \<open>validate\<close> is rejected because the entity is invalid.
\<close>

theorem forceUpdate_run_is_rejected:
  "map_sum id (\<lambda>r. (callbacks r, promise r, snd (run_of r)))
     (validate example_env force_options required_model None no_set_options)
     = Inr ([Invalid ''name'' Undefined ''name''], Rejected Undefined,
            Settled [(''name'', Undefined)] False)"
  by code_simp

lemma getValidators_PathString: "getValidators E (PathString path) attr = []"
  by (simp add: getValidators_def validation_of_def descriptors_of_def enumerate_obj_def
        js_extend_def)

text \<open>
  Claim C6 says that \<open>isValid\<close> with an attribute path, or with a list of paths,
  returns a boolean. In the code \<open>isValid\<close> passes the entity where \<open>validateAttr\<close>
  expects the master deferred and the path where it expects the entity; a string has
  no rules, so \<open>validateAttr\<close> calls \<open>resolve\<close> on the entity, which raises a TypeError,
  for every entity and every path (and for every list of paths that is not empty).
\<close>

theorem isValid_path_raises:
  "isValid E this (PathOption path) = Inl TypeError
   \<and> isValid E this (ListOption (path # paths)) = Inl TypeError"
  by (simp add: isValid_def validateAttr_def getValidators_PathString settle_def)

section \<open>Cross-field comparison\<close>






















section \<open>Running the validation twice\<close>

lemma formatLabel_flag:
  "formatLabel E a (Entity (m\<lparr>isValid_flag := b\<rparr>)) = formatLabel E a (Entity m)"
  by (simp add: formatLabel_def labels_of_def cong: label_formatter.case_cong)

lemma member_of_flag:
  "member_of (Entity (m\<lparr>isValid_flag := b\<rparr>)) name = member_of (Entity m) name"
  by (simp add: member_of_def)

lemma call_validator_flag:
  assumes "flag_blind E"
  shows "call_validator E d x a (Entity (m\<lparr>isValid_flag := b\<rparr>)) c
           = call_validator E d x a (Entity m) c"
proof -
  from assms have v: "\<And>f x a c. validator_fns E f (Entity (m\<lparr>isValid_flag := b\<rparr>)) x a c
                        = validator_fns E f (Entity m) x a c"
    and p: "\<And>f x a c. predicate_fns E f (Entity (m\<lparr>isValid_flag := b\<rparr>)) x a c
                        = predicate_fns E f (Entity m) x a c"
    by (simp_all add: flag_blind_def)
  have 1: "fn_validator E x a (val d) (Entity (m\<lparr>isValid_flag := b\<rparr>)) c
             = fn_validator E x a (val d) (Entity m) c"
    by (simp add: fn_validator_def member_of_flag v cong: jsval.case_cong)
  have n: "\<And>n. native_predicate E n (Entity (m\<lparr>isValid_flag := b\<rparr>)) x a
                 = native_predicate E n (Entity m) x a"
    by (simp add: native_predicate_def own_member_def)
  have 2: "required E x a (val d) (Entity (m\<lparr>isValid_flag := b\<rparr>)) c
             = required E x a (val d) (Entity m) c"
    by (simp add: required_def formatLabel_flag p n
          cong: jsval.case_cong option.case_cong if_cong)
  show ?thesis
    by (simp add: call_validator_def 1 2 acceptance_def min_validator_def max_validator_def
          range_validator_def length_validator_def minLength_def maxLength_def rangeLength_def
          oneOf_def equalTo_def pattern_def formatLabel_flag
          cong: if_cong option.case_cong prod.case_cong
          split: callable.splits vkind.splits)
qed

lemma passes_flag:
  "flag_blind E \<Longrightarrow>
   passes E (Entity (m\<lparr>isValid_flag := b\<rparr>)) a x c = passes E (Entity m) a x c"
  by (rule ext) (simp add: passes_def call_validator_flag)

lemma settlement_events_flag:
  "flag_blind E \<Longrightarrow>
   settlement_events E (Entity (m\<lparr>isValid_flag := b\<rparr>)) a x c d
     = settlement_events E (Entity m) a x c d"
  by (simp add: settlement_events_def call_validator_flag)

lemma getValidators_flag:
  "getValidators E (Entity (m\<lparr>isValid_flag := b\<rparr>)) a = getValidators E (Entity m) a"
  by (simp add: getValidators_def validation_of_def)

lemma pair_state_flag:
  "flag_blind E \<Longrightarrow>
   pair_state E (m\<lparr>isValid_flag := b\<rparr>) c p = pair_state E m c p"
  by (simp add: pair_state_def chain_state_def getValidators_flag passes_flag
        call_validator_flag cong: list.case_cong)

lemma pair_log_flag:
  "flag_blind E \<Longrightarrow>
   pair_log E (m\<lparr>isValid_flag := b\<rparr>) c p = pair_log E m c p"
  by (simp add: pair_log_def sequential_log_def getValidators_flag passes_flag
        settlement_events_flag cong: list.case_cong)

lemma invokeModel_flag:
  assumes "flag_blind E"
  shows "invokeModel E (m\<lparr>isValid_flag := b\<rparr>) c pair pairs inva ok
           = invokeModel E m c pair pairs inva ok"
proof (induction pairs arbitrary: pair inva ok)
  case Nil
  show ?case
    by (simp add: invokeModel.simps [of _ _ _ _ "[]"] validateAttr_pair
          pair_state_flag [OF assms] pair_log_flag [OF assms])
next
  case (Cons n rest)
  show ?case
    by (simp add: invokeModel.simps [of _ _ _ _ "n # rest"] validateAttr_pair
          pair_state_flag [OF assms] pair_log_flag [OF assms] Cons.IH)
qed

lemma validateModel_flag:
  "flag_blind E \<Longrightarrow>
   validateModel E (m\<lparr>isValid_flag := b\<rparr>) attrs = validateModel E m attrs"
  by (simp add: validateModel_def invokeModel_flag cong: list.case_cong)

lemma getValidatedAttrs_flag:
  "getValidatedAttrs (m\<lparr>isValid_flag := b\<rparr>) = getValidatedAttrs m"
  by (simp add: getValidatedAttrs_def)

lemma validate_flag:
  assumes "flag_blind E"
  shows "map_sum id (\<lambda>r. (run_of r, callbacks r, notifications r, promise r))
           (validate E opts (m\<lparr>isValid_flag := b\<rparr>) attrs setOptions)
         = map_sum id (\<lambda>r. (run_of r, callbacks r, notifications r, promise r))
             (validate E opts m attrs setOptions)"
  by (simp add: validate_def Let_def validateModel_flag [OF assms] getValidatedAttrs_flag
        split: sum.splits prod.splits outcome.splits)

lemma validate_entity_after:
  "validate E opts m attrs setOptions = Inr r \<Longrightarrow>
   entity_after r = m \<or> (\<exists>b. entity_after r = m\<lparr>isValid_flag := b\<rparr>)"
  by (auto simp: validate_def Let_def split: sum.splits prod.splits outcome.splits)

text \<open>
  Claim C9, as amended. For every entity whose user-supplied validators and \<open>required\<close>
  predicates do not depend on the entity's \<open>_isValid\<close> field, running \<open>validate\<close> a
  second time on the entity as the first run left it, with the same arguments, gives
  the same run (the same map of invalid attributes and the same flag), the same
  callbacks, the same notifications and the same state of the deferred.
\<close>

theorem validate_twice_same_outcome:
  assumes blind: "flag_blind E"
    and first: "validate E opts model attrs setOptions = Inr r1"
  shows "\<exists>r2. validate E opts (entity_after r1) attrs setOptions = Inr r2
              \<and> run_of r2 = run_of r1
              \<and> callbacks r2 = callbacks r1
              \<and> notifications r2 = notifications r1
              \<and> promise r2 = promise r1"
proof -
  have same: "map_sum id (\<lambda>r. (run_of r, callbacks r, notifications r, promise r))
           (validate E opts (entity_after r1) attrs setOptions)
         = map_sum id (\<lambda>r. (run_of r, callbacks r, notifications r, promise r))
             (validate E opts model attrs setOptions)"
    using validate_entity_after [OF first] validate_flag [OF blind] by auto
  then show ?thesis
    by (cases "validate E opts (entity_after r1) attrs setOptions") (simp_all add: first)
qed

theorem validate_twice_same_outcome_witness:
  "flag_blind example_env
   \<and> map_sum id (\<lambda>r. (entity_after r, snd (run_of r)))
       (validate example_env defaultOptions person_model None no_set_options)
       = Inr (person_model\<lparr>isValid_flag := Some False\<rparr>, Settled [(''age'', Undefined)] False)
   \<and> map_sum id (\<lambda>r. snd (run_of r))
       (validate example_env defaultOptions (person_model\<lparr>isValid_flag := Some False\<rparr>)
          None no_set_options)
       = Inr (Settled [(''age'', Undefined)] False)"
proof -
  have b: "flag_blind example_env"
    by (simp add: flag_blind_def example_env_def)
  have f: "map_sum id (\<lambda>r. (entity_after r, snd (run_of r)))
       (validate example_env defaultOptions person_model None no_set_options)
       = Inr (person_model\<lparr>isValid_flag := Some False\<rparr>, Settled [(''age'', Undefined)] False)"
    by code_simp
  then obtain r1 where
    r1: "validate example_env defaultOptions person_model None no_set_options = Inr r1"
    and e: "entity_after r1 = person_model\<lparr>isValid_flag := Some False\<rparr>"
    and o: "snd (run_of r1) = Settled [(''age'', Undefined)] False"
    by (cases "validate example_env defaultOptions person_model None no_set_options") auto
  from validate_twice_same_outcome [OF b r1] obtain r2 where
    "validate example_env defaultOptions (entity_after r1) None no_set_options = Inr r2"
    "run_of r2 = run_of r1"
    by blast
  with e o f b show ?thesis by simp
qed

text \<open>As stated for every entity, claim C9 fails: the first run stores its flag in
  \<open>_isValid\<close> and the second run hands the entity, with that field, to the
  user-supplied validators; a validator that reads the field makes the second run
  differ from the first.\<close>

theorem validate_twice_counterexample:
  "map_sum id (\<lambda>r. (entity_after r, snd (run_of r)))
     (validate flag_env defaultOptions flag_model None no_set_options)
     = Inr (flag_model\<lparr>isValid_flag := Some True\<rparr>, Settled [] True)
   \<and> map_sum id (\<lambda>r. snd (run_of r))
       (validate flag_env defaultOptions (flag_model\<lparr>isValid_flag := Some True\<rparr>)
          None no_set_options)
       = Inr (Settled [(''name'', Undefined)] False)"
  by code_simp

end
